theory Spec2Isabelle
  imports Complex_Main
begin

unbundle bit_operations_syntax

section \<open>Unit conversions and generator identifiers\<close>

text \<open>
  JavaScript numbers are modelled as reals: the envelope arithmetic is taken exactly, without
  the rounding of IEEE doubles and of the Float32Array buffer. Real division agrees with the
  source only for a divisor that is not zero, and the real logarithm only for a positive
  argument (the source yields an infinity or NaN otherwise), so every statement that depends
  on a quotient or a logarithm of \<open>recalculate\<close> or of the stage loops names the divisor it
  needs to be nonzero and the argument it needs to be positive. The release path of \<open>apply\<close>
  is modelled with the \<open>NaN\<close> and the infinities of JavaScript: its quotient is by
  \<open>releaseDuration\<close>, which \<open>recalculate\<close> sets to zero for a release time of \<open>-32768\<close>
  timecents.
\<close>

definition DB_SILENCE :: real where
  "DB_SILENCE = 100"

definition PERCEIVED_DB_SILENCE :: real where
  "PERCEIVED_DB_SILENCE = 96"

text \<open>
  Modelled from the spec: \<open>decibelAttenuationToGain\<close> of unit_converter.js, which is not among
  the sources. The spec gives decibels to gain as \<open>10^(-dB/20)\<close>.
\<close>

definition decibelAttenuationToGain :: "real \<Rightarrow> real" where
  "decibelAttenuationToGain db = 10 powr (- db / 20)"

text \<open>
  Modelled from the spec: \<open>timecentsToSeconds\<close> of unit_converter.js, which is not among the
  sources. The spec gives timecents to seconds as \<open>2^(tc/1200)\<close> with the sentinel
  \<open>-32768\<close> mapped to 0.
\<close>

definition timecentsToSeconds :: "real \<Rightarrow> real" where
  "timecentsToSeconds tc = (if tc = - 32768 then 0 else 2 powr (tc / 1200))"

text \<open>
  Modelled from the spec: the members of \<open>generatorTypes\<close> (generators.js is not among the
  sources) that the volume envelope reads. The spec fixes generator ids to those of the
  SoundFont 2.04 specification.
\<close>

definition generatorTypes_delayVolEnv :: nat where "generatorTypes_delayVolEnv = 33"
definition generatorTypes_attackVolEnv :: nat where "generatorTypes_attackVolEnv = 34"
definition generatorTypes_holdVolEnv :: nat where "generatorTypes_holdVolEnv = 35"
definition generatorTypes_decayVolEnv :: nat where "generatorTypes_decayVolEnv = 36"
definition generatorTypes_sustainVolEnv :: nat where "generatorTypes_sustainVolEnv = 37"
definition generatorTypes_releaseVolEnv :: nat where "generatorTypes_releaseVolEnv = 38"
definition generatorTypes_keyNumToVolEnvHold :: nat where "generatorTypes_keyNumToVolEnvHold = 39"
definition generatorTypes_keyNumToVolEnvDecay :: nat where "generatorTypes_keyNumToVolEnvDecay = 40"
definition generatorTypes_initialAttenuation :: nat where "generatorTypes_initialAttenuation = 48"

section \<open>JavaScript numbers\<close>

text \<open>
  The release path of \<open>apply\<close> divides by \<open>releaseDuration\<close> with no test for zero, so its
  local \<open>db\<close>, the release gain and the samples it writes are JavaScript numbers: a real
  number, \<open>NaN\<close>, \<open>Infinity\<close> or \<open>-Infinity\<close>. The operations are those of IEEE 754
  without rounding and overflow: a real operation on real operands, unless the divisor is
  zero; \<open>0 / 0\<close>, \<open>Infinity - Infinity\<close>, \<open>Infinity * 0\<close> and \<open>Infinity / Infinity\<close>
  are \<open>NaN\<close>; \<open>NaN\<close> is absorbing; a comparison with \<open>NaN\<close> is false. There is one zero,
  taken as \<open>+0\<close> when it divides (\<open>recalculate\<close> yields \<open>+0\<close> for a duration under a sample
  rate that is not negative).
\<close>

datatype jsnumber = Num real | NaN | PosInfinity | NegInfinity

instantiation jsnumber :: "{uminus, plus, minus, times, inverse, ord}"
begin

fun uminus_jsnumber :: "jsnumber \<Rightarrow> jsnumber" where
  "uminus_jsnumber (Num a) = Num (- a)"
| "uminus_jsnumber NaN = NaN"
| "uminus_jsnumber PosInfinity = NegInfinity"
| "uminus_jsnumber NegInfinity = PosInfinity"

fun plus_jsnumber :: "jsnumber \<Rightarrow> jsnumber \<Rightarrow> jsnumber" where
  "plus_jsnumber (Num a) (Num b) = Num (a + b)"
| "plus_jsnumber NaN y = NaN"
| "plus_jsnumber x NaN = NaN"
| "plus_jsnumber PosInfinity NegInfinity = NaN"
| "plus_jsnumber NegInfinity PosInfinity = NaN"
| "plus_jsnumber PosInfinity y = PosInfinity"
| "plus_jsnumber x PosInfinity = PosInfinity"
| "plus_jsnumber NegInfinity y = NegInfinity"
| "plus_jsnumber x NegInfinity = NegInfinity"

definition minus_jsnumber :: "jsnumber \<Rightarrow> jsnumber \<Rightarrow> jsnumber" where
  "minus_jsnumber x y = x + (- y)"

fun times_jsnumber :: "jsnumber \<Rightarrow> jsnumber \<Rightarrow> jsnumber" where
  "times_jsnumber (Num a) (Num b) = Num (a * b)"
| "times_jsnumber NaN y = NaN"
| "times_jsnumber x NaN = NaN"
| "times_jsnumber PosInfinity (Num b) =
     (if b = 0 then NaN else if 0 < b then PosInfinity else NegInfinity)"
| "times_jsnumber NegInfinity (Num b) =
     (if b = 0 then NaN else if 0 < b then NegInfinity else PosInfinity)"
| "times_jsnumber (Num a) PosInfinity =
     (if a = 0 then NaN else if 0 < a then PosInfinity else NegInfinity)"
| "times_jsnumber (Num a) NegInfinity =
     (if a = 0 then NaN else if 0 < a then NegInfinity else PosInfinity)"
| "times_jsnumber PosInfinity PosInfinity = PosInfinity"
| "times_jsnumber PosInfinity NegInfinity = NegInfinity"
| "times_jsnumber NegInfinity PosInfinity = NegInfinity"
| "times_jsnumber NegInfinity NegInfinity = PosInfinity"

fun divide_jsnumber :: "jsnumber \<Rightarrow> jsnumber \<Rightarrow> jsnumber" where
  "divide_jsnumber (Num a) (Num b) =
     (if b \<noteq> 0 then Num (a / b)
      else if a = 0 then NaN else if 0 < a then PosInfinity else NegInfinity)"
| "divide_jsnumber NaN y = NaN"
| "divide_jsnumber x NaN = NaN"
| "divide_jsnumber (Num a) PosInfinity = Num 0"
| "divide_jsnumber (Num a) NegInfinity = Num 0"
| "divide_jsnumber PosInfinity (Num b) = (if 0 \<le> b then PosInfinity else NegInfinity)"
| "divide_jsnumber NegInfinity (Num b) = (if 0 \<le> b then NegInfinity else PosInfinity)"
| "divide_jsnumber PosInfinity PosInfinity = NaN"
| "divide_jsnumber PosInfinity NegInfinity = NaN"
| "divide_jsnumber NegInfinity PosInfinity = NaN"
| "divide_jsnumber NegInfinity NegInfinity = NaN"

definition inverse_jsnumber :: "jsnumber \<Rightarrow> jsnumber" where
  "inverse_jsnumber x = divide (Num 1) x"

fun less_eq_jsnumber :: "jsnumber \<Rightarrow> jsnumber \<Rightarrow> bool" where
  "less_eq_jsnumber (Num a) (Num b) = (a \<le> b)"
| "less_eq_jsnumber NaN y = False"
| "less_eq_jsnumber x NaN = False"
| "less_eq_jsnumber NegInfinity y = True"
| "less_eq_jsnumber x PosInfinity = True"
| "less_eq_jsnumber PosInfinity y = False"
| "less_eq_jsnumber x NegInfinity = False"

definition less_jsnumber :: "jsnumber \<Rightarrow> jsnumber \<Rightarrow> bool" where
  "less_jsnumber x y \<longleftrightarrow> x \<le> y \<and> \<not> y \<le> x"

instance ..

end

section \<open>The volume envelope (volume\_envelope.js)\<close>

text \<open>
  The fields of class \<open>WorkletVolumeEnvelope\<close>. \<open>state\<close> is the stage number of the source:
  0 delay, 1 attack, 2 hold, 3 decay, 4 sustain. \<open>currentReleaseGain\<close> is the field that the
  release path of \<open>apply\<close> writes, so it is a JavaScript number.
\<close>

record WorkletVolumeEnvelope =
  currentSampleTime :: real
  sampleRate :: real
  currentAttenuationDb :: real
  state :: nat
  releaseStartDb :: real
  releaseStartTimeSamples :: real
  currentReleaseGain :: jsnumber
  attackDuration :: real
  decayDuration :: real
  releaseDuration :: real
  attenuation :: real
  sustainDb :: real
  delayEnd :: real
  attackEnd :: real
  holdEnd :: real
  decayEnd :: real

text \<open>
  The part of a \<open>WorkletVoice\<close> that the envelope touches. \<open>modulatedGenerators\<close> is the
  Int16Array of generator values, read by generator id.
\<close>

record WorkletVoice =
  volumeEnvelope :: WorkletVolumeEnvelope
  modulatedGenerators :: "nat \<Rightarrow> int"
  targetKey :: int
  isInRelease :: bool
  finished :: bool

definition timecentsToSamples :: "WorkletVolumeEnvelope \<Rightarrow> real \<Rightarrow> real" where
  "timecentsToSamples env tc = of_int \<lfloor>timecentsToSeconds tc * sampleRate env\<rfloor>"

text \<open>The value \<open>releaseStartDb\<close> takes in the \<open>switch (env.state)\<close> of \<open>recalculate\<close>.\<close>

definition releaseStartDb_of :: "WorkletVolumeEnvelope \<Rightarrow> real" where
  "releaseStartDb_of env =
    (if state env = 0 then DB_SILENCE
     else if state env = 1 then
       (let elapsed = 1 - ((attackEnd env - releaseStartTimeSamples env) / attackDuration env);
            attackGain = elapsed * decibelAttenuationToGain (attenuation env)
        in 20 * log 10 attackGain * - 1)
     else if state env = 2 then attenuation env
     else if state env = 3 then
       (1 - (decayEnd env - releaseStartTimeSamples env) / decayDuration env)
         * (sustainDb env - attenuation env) + attenuation env
     else if state env = 4 then sustainDb env
     else currentAttenuationDb env)"

text \<open>
  \<open>recalculate\<close>: each assignment \<open>env.x = e\<close> of the source binds \<open>x'\<close>, in the order of the
  source, and the envelope is written once all of them are computed.
\<close>

definition recalculate :: "WorkletVoice \<Rightarrow> WorkletVoice" where
  "recalculate voice =
    (let env = volumeEnvelope voice;
         gen = (\<lambda>g. real_of_int (modulatedGenerators voice g));
         attenuation' = gen generatorTypes_initialAttenuation / 10;
         sustainDb' = attenuation' + gen generatorTypes_sustainVolEnv / 10;
         attackDuration' = timecentsToSamples env (gen generatorTypes_attackVolEnv);
         fullChange = gen generatorTypes_decayVolEnv;
         keyNumAddition =
           (60 - real_of_int (targetKey voice)) * gen generatorTypes_keyNumToVolEnvDecay;
         fraction = (sustainDb' - attenuation') / (100 - attenuation');
         decayDuration' = timecentsToSamples env (fullChange + keyNumAddition) * fraction;
         releaseDuration' = timecentsToSamples env (gen generatorTypes_releaseVolEnv);
         delayEnd' = timecentsToSamples env (gen generatorTypes_delayVolEnv);
         attackEnd' = attackDuration' + delayEnd';
         holdExcursion =
           (60 - real_of_int (targetKey voice)) * gen generatorTypes_keyNumToVolEnvHold;
         holdEnd' = timecentsToSamples env (gen generatorTypes_holdVolEnv + holdExcursion)
                      + attackEnd';
         decayEnd' = decayDuration' + holdEnd';
         env = env\<lparr>attenuation := attenuation', sustainDb := sustainDb',
                   attackDuration := attackDuration', decayDuration := decayDuration',
                   releaseDuration := releaseDuration', delayEnd := delayEnd',
                   attackEnd := attackEnd', holdEnd := holdEnd', decayEnd := decayEnd'\<rparr>;
         env = (if isInRelease voice then env\<lparr>releaseStartDb := releaseStartDb_of env\<rparr> else env)
     in voice\<lparr>volumeEnvelope := env\<rparr>)"

definition startRelease :: "WorkletVoice \<Rightarrow> WorkletVoice" where
  "startRelease voice =
    (let env = volumeEnvelope voice;
         env = env\<lparr>releaseStartTimeSamples := currentSampleTime env\<rparr>;
         env = env\<lparr>currentReleaseGain := Num (decibelAttenuationToGain (currentAttenuationDb env))\<rparr>
     in recalculate (voice\<lparr>volumeEnvelope := env\<rparr>))"

text \<open>
  \<open>getInterpolatedGain\<close> moves \<open>currentAttenuationDb\<close> towards the target and returns the gain
  together with the updated envelope.
\<close>

definition getInterpolatedGain ::
  "WorkletVolumeEnvelope \<Rightarrow> real \<Rightarrow> real \<Rightarrow> real \<times> WorkletVolumeEnvelope" where
  "getInterpolatedGain env attenuationDb smoothingFactor =
    (let env = env\<lparr>currentAttenuationDb :=
            currentAttenuationDb env + (attenuationDb - currentAttenuationDb env) * smoothingFactor\<rparr>
     in (decibelAttenuationToGain (currentAttenuationDb env), env))"

text \<open>
  Modelled from the spec: \<open>decibelAttenuationToGain\<close> at a JavaScript number, as the release
  path calls it: \<open>10^(-dB/20)\<close> in IEEE 754 arithmetic, which is \<open>NaN\<close> at \<open>NaN\<close>, 0 at
  \<open>Infinity\<close> and \<open>Infinity\<close> at \<open>-Infinity\<close>.
\<close>

definition decibelAttenuationToGain_number :: "jsnumber \<Rightarrow> jsnumber" where
  "decibelAttenuationToGain_number db =
    (case db of
       Num x \<Rightarrow> Num (decibelAttenuationToGain x)
     | NaN \<Rightarrow> NaN
     | PosInfinity \<Rightarrow> Num 0
     | NegInfinity \<Rightarrow> PosInfinity)"

text \<open>
  The release loop of \<open>apply\<close>, from index \<open>i\<close>. Its state is the envelope, the buffer, the
  local \<open>elapsedRelease\<close> and the local \<open>db\<close>; it returns them when \<open>i\<close> reaches the length
  of the buffer. The quotient by \<open>releaseDuration\<close> is a JavaScript number, and so is what
  is computed from it: \<open>db\<close>, the gain, \<open>currentReleaseGain\<close> and the sample written.
\<close>

function release_loop ::
  "real \<Rightarrow> real \<Rightarrow> real \<Rightarrow> WorkletVolumeEnvelope \<Rightarrow> jsnumber list \<Rightarrow> real \<Rightarrow> jsnumber \<Rightarrow> nat
    \<Rightarrow> WorkletVolumeEnvelope \<times> jsnumber list \<times> jsnumber" where
  "release_loop decibelOffset releaseSmoothingFactor dbDifference env audioBuffer elapsedRelease db i =
    (if i < length audioBuffer then
       release_loop decibelOffset releaseSmoothingFactor dbDifference
         (env\<lparr>currentReleaseGain :=
                  currentReleaseGain env
                  + (decibelAttenuationToGain_number
                       ((Num elapsedRelease / Num (releaseDuration env)) * Num dbDifference
                         + Num (releaseStartDb env) + Num decibelOffset)
                     - currentReleaseGain env) * Num releaseSmoothingFactor,
               currentSampleTime := currentSampleTime env + 1\<rparr>)
         (audioBuffer[i := audioBuffer ! i *
             (currentReleaseGain env
                + (decibelAttenuationToGain_number
                     ((Num elapsedRelease / Num (releaseDuration env)) * Num dbDifference
                       + Num (releaseStartDb env) + Num decibelOffset)
                   - currentReleaseGain env) * Num releaseSmoothingFactor)])
         (elapsedRelease + 1)
         ((Num elapsedRelease / Num (releaseDuration env)) * Num dbDifference
            + Num (releaseStartDb env))
         (i + 1)
     else (env, audioBuffer, db))"
  by pat_completeness auto
termination
  by (relation "measure (\<lambda>(off, sf, dd, env, buf, e, db, i). length buf - i)") auto

text \<open>
  The loops of the five stages. Each takes the envelope, the buffer and \<open>filledBuffer\<close>, and
  returns a flag that tells whether the loop left \<open>apply\<close> through \<open>return\<close> (the buffer is
  full) or ended because its condition failed (the \<open>switch\<close> falls through to the next
  stage). A write to the Float32Array at an index past its end has no effect, as
  \<open>audioBuffer[i := v]\<close> has none.
\<close>

function delay_loop ::
  "WorkletVolumeEnvelope \<Rightarrow> real list \<Rightarrow> nat \<Rightarrow> bool \<times> WorkletVolumeEnvelope \<times> real list \<times> nat" where
  "delay_loop env audioBuffer filledBuffer =
    (if currentSampleTime env < delayEnd env then
       (if filledBuffer + 1 \<ge> length audioBuffer
        then (True,
              env\<lparr>currentAttenuationDb := DB_SILENCE, currentSampleTime := currentSampleTime env + 1\<rparr>,
              audioBuffer[filledBuffer := 0], filledBuffer + 1)
        else delay_loop
              (env\<lparr>currentAttenuationDb := DB_SILENCE, currentSampleTime := currentSampleTime env + 1\<rparr>)
              (audioBuffer[filledBuffer := 0]) (filledBuffer + 1))
     else (False, env, audioBuffer, filledBuffer))"
  by pat_completeness auto
termination
  by (relation "measure (\<lambda>(env, buf, filled). length buf - filled)") auto

function attack_loop ::
  "real \<Rightarrow> WorkletVolumeEnvelope \<Rightarrow> real list \<Rightarrow> nat
    \<Rightarrow> bool \<times> WorkletVolumeEnvelope \<times> real list \<times> nat" where
  "attack_loop decibelOffset env audioBuffer filledBuffer =
    (if currentSampleTime env < attackEnd env then
       (if filledBuffer + 1 \<ge> length audioBuffer
        then (True,
              env\<lparr>currentAttenuationDb := attenuation env, currentSampleTime := currentSampleTime env + 1\<rparr>,
              audioBuffer[filledBuffer := audioBuffer ! filledBuffer *
                ((1 - (attackEnd env - currentSampleTime env) / attackDuration env)
                  * decibelAttenuationToGain (attenuation env + decibelOffset))],
              filledBuffer + 1)
        else attack_loop decibelOffset
              (env\<lparr>currentAttenuationDb := attenuation env, currentSampleTime := currentSampleTime env + 1\<rparr>)
              (audioBuffer[filledBuffer := audioBuffer ! filledBuffer *
                ((1 - (attackEnd env - currentSampleTime env) / attackDuration env)
                  * decibelAttenuationToGain (attenuation env + decibelOffset))])
              (filledBuffer + 1))
     else (False, env, audioBuffer, filledBuffer))"
  by pat_completeness auto
termination
  by (relation "measure (\<lambda>(off, env, buf, filled). length buf - filled)") auto

text \<open>
  One pass through the body shared by the hold, decay and sustain loops: the sample at
  \<open>filledBuffer\<close> is multiplied by the interpolated gain for the target, and the clock
  advances by one.
\<close>

definition interpolated_step ::
  "real \<Rightarrow> real \<Rightarrow> WorkletVolumeEnvelope \<Rightarrow> real list \<Rightarrow> nat \<Rightarrow> WorkletVolumeEnvelope \<times> real list" where
  "interpolated_step target smoothingFactor env audioBuffer filledBuffer =
    (case getInterpolatedGain env target smoothingFactor of
       (gain, env') \<Rightarrow>
         (env'\<lparr>currentSampleTime := currentSampleTime env' + 1\<rparr>,
          audioBuffer[filledBuffer := audioBuffer ! filledBuffer * gain]))"

function hold_loop ::
  "real \<Rightarrow> real \<Rightarrow> WorkletVolumeEnvelope \<Rightarrow> real list \<Rightarrow> nat
    \<Rightarrow> bool \<times> WorkletVolumeEnvelope \<times> real list \<times> nat" where
  "hold_loop decibelOffset smoothingFactor env audioBuffer filledBuffer =
    (if currentSampleTime env < holdEnd env then
       (case interpolated_step (attenuation env + decibelOffset) smoothingFactor env audioBuffer
               filledBuffer of
          (env', audioBuffer') \<Rightarrow>
            if filledBuffer + 1 \<ge> length audioBuffer
            then (True, env', audioBuffer', filledBuffer + 1)
            else hold_loop decibelOffset smoothingFactor env' audioBuffer' (filledBuffer + 1))
     else (False, env, audioBuffer, filledBuffer))"
  by pat_completeness auto
termination
  by (relation "measure (\<lambda>(off, sf, env, buf, filled). length buf - filled)")
     (auto simp: interpolated_step_def getInterpolatedGain_def Let_def)

text \<open>
  The condition of the decay loop is \<open>env.currentSampleTime++ < env.decayEnd\<close>: the clock is
  incremented when the condition is evaluated, whatever its outcome, and the body reads the
  incremented clock and increments it again.
\<close>

function decay_loop ::
  "real \<Rightarrow> real \<Rightarrow> real \<Rightarrow> WorkletVolumeEnvelope \<Rightarrow> real list \<Rightarrow> nat
    \<Rightarrow> bool \<times> WorkletVolumeEnvelope \<times> real list \<times> nat" where
  "decay_loop decibelOffset smoothingFactor dbDifference env audioBuffer filledBuffer =
    (if currentSampleTime env < decayEnd env then
       (case interpolated_step
               ((1 - (decayEnd env - (currentSampleTime env + 1)) / decayDuration env) * dbDifference
                 + attenuation env + decibelOffset)
               smoothingFactor (env\<lparr>currentSampleTime := currentSampleTime env + 1\<rparr>) audioBuffer
               filledBuffer of
          (env', audioBuffer') \<Rightarrow>
            if filledBuffer + 1 \<ge> length audioBuffer
            then (True, env', audioBuffer', filledBuffer + 1)
            else decay_loop decibelOffset smoothingFactor dbDifference env' audioBuffer'
                   (filledBuffer + 1))
     else (False, env\<lparr>currentSampleTime := currentSampleTime env + 1\<rparr>, audioBuffer, filledBuffer))"
  by pat_completeness auto
termination
  by (relation "measure (\<lambda>(off, sf, dd, env, buf, filled). length buf - filled)")
     (auto simp: interpolated_step_def getInterpolatedGain_def Let_def)

function sustain_loop ::
  "real \<Rightarrow> real \<Rightarrow> WorkletVolumeEnvelope \<Rightarrow> real list \<Rightarrow> nat \<Rightarrow> WorkletVolumeEnvelope \<times> real list" where
  "sustain_loop decibelOffset smoothingFactor env audioBuffer filledBuffer =
    (case interpolated_step (sustainDb env + decibelOffset) smoothingFactor env audioBuffer
            filledBuffer of
       (env', audioBuffer') \<Rightarrow>
         if filledBuffer + 1 \<ge> length audioBuffer
         then (env', audioBuffer')
         else sustain_loop decibelOffset smoothingFactor env' audioBuffer' (filledBuffer + 1))"
  by pat_completeness auto
termination
  by (relation "measure (\<lambda>(off, sf, env, buf, filled). length buf - filled)")
     (auto simp: interpolated_step_def getInterpolatedGain_def Let_def)

text \<open>
  The \<open>switch (env.state)\<close> of \<open>apply\<close>, one function for each \<open>case\<close> label: a loop that ends
  without \<open>return\<close> increments \<open>state\<close> and falls through to the next label.
\<close>

definition sustain_case ::
  "real \<Rightarrow> real \<Rightarrow> WorkletVolumeEnvelope \<Rightarrow> real list \<Rightarrow> nat \<Rightarrow> WorkletVolumeEnvelope \<times> real list" where
  "sustain_case decibelOffset smoothingFactor env audioBuffer filledBuffer =
    sustain_loop decibelOffset smoothingFactor env audioBuffer filledBuffer"

definition decay_case ::
  "real \<Rightarrow> real \<Rightarrow> WorkletVolumeEnvelope \<Rightarrow> real list \<Rightarrow> nat \<Rightarrow> WorkletVolumeEnvelope \<times> real list" where
  "decay_case decibelOffset smoothingFactor env audioBuffer filledBuffer =
    (case decay_loop decibelOffset smoothingFactor (sustainDb env - attenuation env) env audioBuffer
            filledBuffer of
       (returned, env', audioBuffer', filledBuffer') \<Rightarrow>
         if returned then (env', audioBuffer')
         else sustain_case decibelOffset smoothingFactor (env'\<lparr>state := state env' + 1\<rparr>)
                audioBuffer' filledBuffer')"

definition hold_case ::
  "real \<Rightarrow> real \<Rightarrow> WorkletVolumeEnvelope \<Rightarrow> real list \<Rightarrow> nat \<Rightarrow> WorkletVolumeEnvelope \<times> real list" where
  "hold_case decibelOffset smoothingFactor env audioBuffer filledBuffer =
    (case hold_loop decibelOffset smoothingFactor env audioBuffer filledBuffer of
       (returned, env', audioBuffer', filledBuffer') \<Rightarrow>
         if returned then (env', audioBuffer')
         else decay_case decibelOffset smoothingFactor (env'\<lparr>state := state env' + 1\<rparr>)
                audioBuffer' filledBuffer')"

definition attack_case ::
  "real \<Rightarrow> real \<Rightarrow> WorkletVolumeEnvelope \<Rightarrow> real list \<Rightarrow> nat \<Rightarrow> WorkletVolumeEnvelope \<times> real list" where
  "attack_case decibelOffset smoothingFactor env audioBuffer filledBuffer =
    (case attack_loop decibelOffset env audioBuffer filledBuffer of
       (returned, env', audioBuffer', filledBuffer') \<Rightarrow>
         if returned then (env', audioBuffer')
         else hold_case decibelOffset smoothingFactor (env'\<lparr>state := state env' + 1\<rparr>)
                audioBuffer' filledBuffer')"

definition delay_case ::
  "real \<Rightarrow> real \<Rightarrow> WorkletVolumeEnvelope \<Rightarrow> real list \<Rightarrow> nat \<Rightarrow> WorkletVolumeEnvelope \<times> real list" where
  "delay_case decibelOffset smoothingFactor env audioBuffer filledBuffer =
    (case delay_loop env audioBuffer filledBuffer of
       (returned, env', audioBuffer', filledBuffer') \<Rightarrow>
         if returned then (env', audioBuffer')
         else attack_case decibelOffset smoothingFactor (env'\<lparr>state := state env' + 1\<rparr>)
                audioBuffer' filledBuffer')"

text \<open>
  The \<open>switch (env.state)\<close> itself, entered with \<open>filledBuffer = 0\<close>: a state that is none of
  the five labels leaves the envelope and the buffer as they are.
\<close>

definition stage_switch ::
  "real \<Rightarrow> real \<Rightarrow> WorkletVolumeEnvelope \<Rightarrow> real list \<Rightarrow> WorkletVolumeEnvelope \<times> real list" where
  "stage_switch decibelOffset smoothingFactor env audioBuffer =
    (if state env = 0 then delay_case decibelOffset smoothingFactor env audioBuffer 0
     else if state env = 1 then attack_case decibelOffset smoothingFactor env audioBuffer 0
     else if state env = 2 then hold_case decibelOffset smoothingFactor env audioBuffer 0
     else if state env = 3 then decay_case decibelOffset smoothingFactor env audioBuffer 0
     else if state env = 4 then sustain_case decibelOffset smoothingFactor env audioBuffer 0
     else (env, audioBuffer))"

text \<open>
  \<open>WorkletVolumeEnvelope.apply\<close>: the voice and the audio buffer after the call. The samples
  handed in are real numbers; the samples handed back are JavaScript numbers, since the
  release path can write \<open>NaN\<close> or an infinity.
\<close>

definition envelope_apply ::
  "WorkletVoice \<Rightarrow> real list \<Rightarrow> real \<Rightarrow> real \<Rightarrow> WorkletVoice \<times> jsnumber list" where
  "envelope_apply voice audioBuffer centibelOffset smoothingFactor =
    (let env = volumeEnvelope voice;
         decibelOffset = centibelOffset / 10
     in if isInRelease voice then
          (case release_loop decibelOffset (smoothingFactor * 10) (DB_SILENCE - releaseStartDb env)
                  env (map Num audioBuffer) (currentSampleTime env - releaseStartTimeSamples env)
                  (Num 0) 0 of
             (env', audioBuffer', db) \<Rightarrow>
               (if db \<ge> Num PERCEIVED_DB_SILENCE
                then voice\<lparr>volumeEnvelope := env', finished := True\<rparr>
                else voice\<lparr>volumeEnvelope := env'\<rparr>,
                audioBuffer'))
        else
          (case stage_switch decibelOffset smoothingFactor env audioBuffer of
             (env', audioBuffer') \<Rightarrow> (voice\<lparr>volumeEnvelope := env'\<rparr>, map Num audioBuffer')))"

section \<open>Reference behaviour of the envelope\<close>

text \<open>
  The one-pole smoothing of the spec: the value reached from \<open>c\<close> after moving towards each
  target of the list in turn by the factor \<open>sf\<close>.
\<close>

fun smoothed :: "real \<Rightarrow> real \<Rightarrow> real list \<Rightarrow> real" where
  "smoothed c sf [] = c"
| "smoothed c sf (tg # tgs) = smoothed (c + (tg - c) * sf) sf tgs"

text \<open>
  The ramps of the spec, as functions of the envelope clock: the fraction of the attack that
  has elapsed, the attenuation on the straight line in dB from \<open>attenuation\<close> at the end of
  hold to \<open>sustainDb\<close> at the end of decay, and the attenuation on the straight line in dB
  from \<open>releaseStartDb\<close> to 100 dB across \<open>releaseDuration\<close> samples of release.
\<close>

definition attack_ramp :: "WorkletVolumeEnvelope \<Rightarrow> real \<Rightarrow> real" where
  "attack_ramp env t = (t - delayEnd env) / attackDuration env"

definition decay_ramp :: "WorkletVolumeEnvelope \<Rightarrow> real \<Rightarrow> real" where
  "decay_ramp env t =
     attenuation env + (t - holdEnd env) / decayDuration env * (sustainDb env - attenuation env)"

definition release_ramp :: "WorkletVolumeEnvelope \<Rightarrow> real \<Rightarrow> real" where
  "release_ramp env elapsed =
     releaseStartDb env + elapsed / releaseDuration env * (100 - releaseStartDb env)"

section \<open>MIDI messages (midi\_message.js)\<close>

text \<open>
  Modelled from the spec: the members of \<open>messageTypes\<close> and \<open>midiControllers\<close> that the
  replay names (midi\_message.js is not among the sources). The spec takes its input as a
  standard MIDI 1.0 byte stream, so these are the status bytes and controller numbers of
  MIDI 1.0; \<open>midiPort\<close> is the meta event type 0x21 of a Standard MIDI File.
\<close>

definition messageTypes_noteOff :: nat where "messageTypes_noteOff = 0x80"
definition messageTypes_noteOn :: nat where "messageTypes_noteOn = 0x90"
definition messageTypes_controllerChange :: nat where "messageTypes_controllerChange = 0xB0"
definition messageTypes_pitchBend :: nat where "messageTypes_pitchBend = 0xE0"
definition messageTypes_midiPort :: nat where "messageTypes_midiPort = 0x21"
definition messageTypes_reset :: nat where "messageTypes_reset = 0xFF"

definition midiControllers_bankSelect :: nat where "midiControllers_bankSelect = 0"
definition midiControllers_dataEntryMsb :: nat where "midiControllers_dataEntryMsb = 6"
definition midiControllers_mainVolume :: nat where "midiControllers_mainVolume = 7"
definition midiControllers_pan :: nat where "midiControllers_pan = 10"
definition midiControllers_expressionController :: nat where "midiControllers_expressionController = 11"
definition midiControllers_lsbForControl0BankSelect :: nat where "midiControllers_lsbForControl0BankSelect = 32"
definition midiControllers_lsbForControl6DataEntry :: nat where "midiControllers_lsbForControl6DataEntry = 38"
definition midiControllers_releaseTime :: nat where "midiControllers_releaseTime = 72"
definition midiControllers_brightness :: nat where "midiControllers_brightness = 74"
definition midiControllers_effects1Depth :: nat where "midiControllers_effects1Depth = 91"
definition midiControllers_dataIncrement :: nat where "midiControllers_dataIncrement = 96"
definition midiControllers_dataDecrement :: nat where "midiControllers_dataDecrement = 97"
definition midiControllers_NRPNLsb :: nat where "midiControllers_NRPNLsb = 98"
definition midiControllers_NRPNMsb :: nat where "midiControllers_NRPNMsb = 99"
definition midiControllers_RPNLsb :: nat where "midiControllers_RPNLsb = 100"
definition midiControllers_RPNMsb :: nat where "midiControllers_RPNMsb = 101"
definition midiControllers_resetAllControllers :: nat where "midiControllers_resetAllControllers = 121"

text \<open>
  Modelled from the spec: \<open>getEvent\<close> of midi\_message.js, which is not among the sources.
  A channel voice status byte of MIDI 1.0 (0x80 to 0xEF) carries the message type in its high
  nibble and the channel in its low nibble; any other status byte (a meta or system event) is
  its own type and has no channel, written \<open>-1\<close>.
\<close>

definition getEvent :: "nat \<Rightarrow> nat \<times> int" where
  "getEvent statusByte =
    (let status = statusByte AND 0xF0;
         channel = statusByte AND 0x0F
     in if 0x80 \<le> status \<and> status \<le> 0xE0 then (status, int channel) else (statusByte, - 1))"

section \<open>JavaScript arrays\<close>

text \<open>
  A number read from an array is a \<open>jsnum\<close>: \<open>None\<close> is \<open>undefined\<close>, the value of a read past
  the end. \<open>js_index\<close> reads a dense array (a byte array or a typed array). A plain array may
  have holes, so its cells are options: \<open>js_get\<close> reads \<open>undefined\<close> from a hole as from past
  the end, and \<open>js_set\<close> extends the array with holes when it writes past the end.
  \<open>to_int32\<close> is the conversion the bit operators apply to an operand; the operands here are
  bytes, or the 14-bit values made of two bytes, so no wrap-around to 32 bits is written out.
\<close>

type_synonym jsnum = "nat option"

definition js_index :: "'a list \<Rightarrow> nat \<Rightarrow> 'a option" where
  "js_index xs i = (if i < length xs then Some (xs ! i) else None)"

definition js_get :: "'a option list \<Rightarrow> nat \<Rightarrow> 'a option" where
  "js_get xs i = (if i < length xs then xs ! i else None)"

definition js_set :: "'a option list \<Rightarrow> nat \<Rightarrow> 'a \<Rightarrow> 'a option list" where
  "js_set xs i v =
    (if i < length xs then xs[i := Some v] else xs @ replicate (i - length xs) None @ [Some v])"

definition to_int32 :: "jsnum \<Rightarrow> nat" where
  "to_int32 v = (case v of None \<Rightarrow> 0 | Some b \<Rightarrow> b)"

section \<open>The silent replay of the sequencer (\_playTo)\<close>

text \<open>
  \<open>defaultControllerArray\<close> is \<open>new Int16Array(127)\<close>, zero-filled, with the six assignments
  of the source.
\<close>

definition defaultControllerArray :: "nat list" where
  "defaultControllerArray =
    (replicate 127 0)
      [midiControllers_mainVolume := 100,
       midiControllers_expressionController := 127,
       midiControllers_pan := 64,
       midiControllers_releaseTime := 64,
       midiControllers_brightness := 64,
       midiControllers_effects1Depth := 40]"

text \<open>
  An event of a track, and the fields of the sequencer that \<open>_playTo\<close> reads or writes.
  \<open>channelCount\<close> is \<open>this.synth.workletProcessorChannels.length\<close>.
\<close>

record midi_event =
  ticks :: nat
  messageStatusByte :: nat
  messageData :: "nat list"

record sequencer =
  sendMIDIMessages :: bool
  timeDivision :: real
  oneTickToSeconds :: real
  playedTime :: real
  midiPorts :: "nat list"
  midiPortChannelOffsets :: "nat \<Rightarrow> nat option"
  channelCount :: nat

text \<open>
  The calls that \<open>_playTo\<close> makes on the synthesizer, on the MIDI sink and on the sequencer's
  own methods, in the order in which it makes them: \<open>synth.resetAllControllers()\<close>,
  \<open>sendMIDIMessage(bytes)\<close>, \<open>synth.controllerChange(channel, controller, value)\<close>,
  \<open>synth.pitchWheel(channel, MSB, LSB)\<close>, \<open>_processEvent(event, trackIndex)\<close> and \<open>stop()\<close>.
\<close>

datatype action =
    ResetAllControllers
  | SendMIDIMessage "jsnum list"
  | ControllerChange nat nat jsnum
  | PitchWheel nat nat nat
  | ProcessEvent midi_event nat
  | Stop

text \<open>
  The locals \<open>pitchBends\<close> and \<open>savedControllers\<close> together with the sequencer and the calls made
  so far. A row of \<open>savedControllers\<close> is a plain array of controller values.
\<close>

type_synonym controller_row = "jsnum option list"

record replay_state =
  seq :: sequencer
  pitchBends :: "nat list"
  savedControllers :: "controller_row option list"
  calls :: "action list"

text \<open>\<open>Array.from(defaultControllerArray)\<close>.\<close>

definition default_row :: controller_row where
  "default_row = map (\<lambda>v. Some (Some v)) defaultControllerArray"

text \<open>\<open>this.midiPortChannelOffsets[this.midiPorts[trackIndex]] || 0\<close>.\<close>

definition port_offset :: "sequencer \<Rightarrow> nat \<Rightarrow> nat" where
  "port_offset s trackIndex =
    (case js_index (midiPorts s) trackIndex of
       None \<Rightarrow> 0
     | Some port \<Rightarrow> (case midiPortChannelOffsets s port of None \<Rightarrow> 0 | Some k \<Rightarrow> k))"

text \<open>
  The condition under which a controller change is not deferred, with its disjuncts in the
  order of the source.
\<close>

definition is_immediate_controller :: "nat \<Rightarrow> bool" where
  "is_immediate_controller controllerNumber \<longleftrightarrow>
     controllerNumber = midiControllers_dataDecrement
   \<or> controllerNumber = midiControllers_dataEntryMsb
   \<or> controllerNumber = midiControllers_dataDecrement
   \<or> controllerNumber = midiControllers_lsbForControl6DataEntry
   \<or> controllerNumber = midiControllers_RPNLsb
   \<or> controllerNumber = midiControllers_RPNMsb
   \<or> controllerNumber = midiControllers_NRPNLsb
   \<or> controllerNumber = midiControllers_NRPNMsb
   \<or> controllerNumber = midiControllers_bankSelect
   \<or> controllerNumber = midiControllers_lsbForControl0BankSelect
   \<or> controllerNumber = midiControllers_resetAllControllers"

text \<open>
  The deferred branch: the row of the channel is created from the defaults when it is
  \<open>undefined\<close>, and the value is stored at the controller number. A controller number that is
  \<open>undefined\<close> names no cell of the row.
\<close>

definition save_controller ::
  "controller_row option list \<Rightarrow> nat \<Rightarrow> jsnum \<Rightarrow> jsnum \<Rightarrow> controller_row option list" where
  "save_controller saved channel controllerNumber v =
    (let row = (case js_get saved channel of None \<Rightarrow> default_row | Some r \<Rightarrow> r);
         row = (case controllerNumber of None \<Rightarrow> row | Some n \<Rightarrow> js_set row n v)
     in js_set saved channel row)"

text \<open>
  The \<open>switch (info.status)\<close> of the loop body. \<open>_processEvent\<close> is not among the sources: its
  effect on the fields of the sequencer is the parameter \<open>processEvent\<close>, and the call is
  recorded.
\<close>

definition replay_event ::
  "(midi_event \<Rightarrow> nat \<Rightarrow> sequencer \<Rightarrow> sequencer) \<Rightarrow> nat \<Rightarrow> midi_event \<Rightarrow> replay_state
    \<Rightarrow> replay_state" where
  "replay_event processEvent trackIndex event st =
    (let info = getEvent (messageStatusByte event);
         status = fst info;
         channel = nat (snd info);
         data = messageData event
     in if status = messageTypes_noteOn \<or> status = messageTypes_noteOff then st
        else if status = messageTypes_pitchBend then
          st\<lparr>pitchBends := (pitchBends st)
                [channel := push_bit 7 (to_int32 (js_index data 1)) OR to_int32 (js_index data 0)]\<rparr>
        else if status = messageTypes_controllerChange then
          (case js_index data 0 of
             Some controllerNumber \<Rightarrow>
               if is_immediate_controller controllerNumber then
                 (if sendMIDIMessages (seq st)
                  then st\<lparr>calls := calls st @
                         [SendMIDIMessage [Some (messageTypes_controllerChange OR channel),
                                           Some controllerNumber, js_index data 1]]\<rparr>
                  else st\<lparr>calls := calls st @
                         [ControllerChange channel controllerNumber (js_index data 1)]\<rparr>)
               else
                 st\<lparr>savedControllers :=
                      save_controller (savedControllers st)
                        (channel + port_offset (seq st) trackIndex) (Some controllerNumber)
                        (js_index data 1)\<rparr>
           | None \<Rightarrow>
               st\<lparr>savedControllers :=
                    save_controller (savedControllers st)
                      (channel + port_offset (seq st) trackIndex) None (js_index data 1)\<rparr>)
        else if status = messageTypes_midiPort then
          (let st = st\<lparr>seq := processEvent event trackIndex (seq st),
                        calls := calls st @ [ProcessEvent event trackIndex]\<rparr>
           in st\<lparr>savedControllers := savedControllers st @
                 replicate (channelCount (seq st) - length (savedControllers st)) (Some default_row)\<rparr>)
        else
          st\<lparr>seq := processEvent event trackIndex (seq st),
             calls := calls st @ [ProcessEvent event trackIndex]\<rparr>)"

text \<open>
  \<open>EventUndefined\<close> is the TypeError of reading a field of \<open>event\<close> when no track has an event
  left at the top of the loop; \<open>RowUndefined\<close> is the TypeError of calling \<open>forEach\<close> on a row
  that is \<open>undefined\<close>.
\<close>

datatype replay_error = EventUndefined | RowUndefined

text \<open>
  The \<open>while (true)\<close> loop. \<open>_findFirstEventIndex\<close> and the track cursors are not among the
  sources: \<open>pending\<close> is the sequence of the track indices and events that the successive
  calls of \<open>_findFirstEventIndex\<close> select from the rewound cursors, so the event examined at
  the top of the loop is the head of \<open>pending\<close>, and \<open>nextEvent\<close> is the head of the rest. With
  no event at all the loop throws on reading \<open>event.ticks\<close> or \<open>event.messageStatusByte\<close>,
  unless it is called with a time that is already reached. The loop returns \<open>True\<close> with its state when it leaves through \<open>break\<close>, and \<open>False\<close> when the
  events run out and it calls \<open>stop()\<close>.
\<close>

fun replay_loop ::
  "(midi_event \<Rightarrow> nat \<Rightarrow> sequencer \<Rightarrow> sequencer) \<Rightarrow> real \<Rightarrow> nat option \<Rightarrow> replay_state
    \<Rightarrow> (nat \<times> midi_event) list \<Rightarrow> replay_error + bool \<times> replay_state" where
  "replay_loop processEvent time targetTicks st [] =
    (case targetTicks of
       Some T \<Rightarrow> Inl EventUndefined
     | None \<Rightarrow> if playedTime (seq st) \<ge> time then Inr (True, st) else Inl EventUndefined)"
| "replay_loop processEvent time targetTicks st ((trackIndex, event) # rest) =
    (if (case targetTicks of
           Some T \<Rightarrow> ticks event \<ge> T
         | None \<Rightarrow> playedTime (seq st) \<ge> time)
     then Inr (True, st)
     else
       (let st' = replay_event processEvent trackIndex event st
        in case rest of
             [] \<Rightarrow> Inr (False, st'\<lparr>calls := calls st' @ [Stop]\<rparr>)
           | (nextTrack, nextEvent) # _ \<Rightarrow>
               replay_loop processEvent time targetTicks
                 (st'\<lparr>seq := (seq st')
                     \<lparr>playedTime := playedTime (seq st')
                        + oneTickToSeconds (seq st') * (real (ticks nextEvent) - real (ticks event))\<rparr>\<rparr>)
                 rest))"

text \<open>
  \<open>row.forEach((value, index) => ...)\<close>: the callback runs on the cells that are not holes, in
  index order; \<open>f index value\<close> is the list of calls it makes.
\<close>

definition restore_row :: "(nat \<Rightarrow> jsnum \<Rightarrow> action list) \<Rightarrow> controller_row \<Rightarrow> action list" where
  "restore_row f row =
    concat (map (\<lambda>(index, cell). case cell of None \<Rightarrow> [] | Some v \<Rightarrow> f index v)
              (List.enumerate 0 row))"

text \<open>
  The body of the two \<open>for\<close> loops that restore the saved state: for the MIDI sink, where the
  saved value is compared with \<open>defaultControllerArray[channelNumber]\<close>, and for the
  synthesizer, where it is compared with \<open>defaultControllerArray[index]\<close>.
\<close>

definition restore_passthrough_channel :: "replay_state \<Rightarrow> nat \<Rightarrow> replay_error + action list" where
  "restore_passthrough_channel st channelNumber =
    (case js_get (savedControllers st) channelNumber of
       None \<Rightarrow> Inl RowUndefined
     | Some row \<Rightarrow>
         Inr (SendMIDIMessage
                [Some (messageTypes_pitchBend OR channelNumber),
                 Some (to_int32 (js_index (pitchBends st) channelNumber) AND 0x7F),
                 Some (drop_bit 7 (to_int32 (js_index (pitchBends st) channelNumber)))]
              # restore_row
                  (\<lambda>index v.
                     if v \<noteq> js_index defaultControllerArray channelNumber
                     then [SendMIDIMessage
                             [Some (messageTypes_controllerChange OR channelNumber), Some index, v]]
                     else [])
                  row))"

definition restore_direct_channel :: "replay_state \<Rightarrow> nat \<Rightarrow> action list" where
  "restore_direct_channel st channelNumber =
    (case js_index (pitchBends st) channelNumber of
       None \<Rightarrow> []
     | Some pb \<Rightarrow> [PitchWheel channelNumber (drop_bit 7 pb) (pb AND 0x7F)])
    @ (case js_get (savedControllers st) channelNumber of
         None \<Rightarrow> []
       | Some row \<Rightarrow>
           restore_row
             (\<lambda>index v.
                if v \<noteq> js_index defaultControllerArray index
                then [ControllerChange channelNumber index v]
                else [])
             row)"

text \<open>The calls of a \<open>for\<close> loop whose body may throw: the first error ends the loop.\<close>

fun collect :: "('a \<Rightarrow> replay_error + action list) \<Rightarrow> 'a list \<Rightarrow> replay_error + action list" where
  "collect f [] = Inr []"
| "collect f (x # xs) =
     (case f x of
        Inl e \<Rightarrow> Inl e
      | Inr as \<Rightarrow> (case collect f xs of Inl e \<Rightarrow> Inl e | Inr bs \<Rightarrow> Inr (as @ bs)))"

definition restore :: "replay_state \<Rightarrow> replay_error + action list" where
  "restore st =
    (if sendMIDIMessages (seq st)
     then collect (restore_passthrough_channel st) [0..<16]
     else Inr (concat (map (restore_direct_channel st) [0..<channelCount (seq st)])))"

text \<open>
  The state with which the loop starts: the calls made before it, and the fresh
  \<open>pitchBends\<close> and \<open>savedControllers\<close>. \<open>s\<close> is the sequencer when \<open>_playTo\<close> tests
  \<open>sendMIDIMessages\<close>, \<open>s'\<close> the sequencer after \<open>_resetTimers\<close>.
\<close>

definition initial_replay_state :: "sequencer \<Rightarrow> sequencer \<Rightarrow> replay_state" where
  "initial_replay_state s s' =
    \<lparr>seq = s',
     pitchBends = replicate 16 8192,
     savedControllers = replicate 16 (Some default_row),
     calls = ResetAllControllers #
       (if sendMIDIMessages s then [SendMIDIMessage [Some messageTypes_reset]] else [])\<rparr>"

text \<open>
  \<open>_playTo(time, ticks)\<close>. \<open>_resetTimers\<close> is not among the sources: its effect on the fields
  of the sequencer is the parameter \<open>resetTimers\<close>, and the cursors it rewinds are those that
  \<open>pending\<close> is read from. The result is the returned boolean, the sequencer and the calls
  made.
\<close>

definition playTo ::
  "(midi_event \<Rightarrow> nat \<Rightarrow> sequencer \<Rightarrow> sequencer) \<Rightarrow> (sequencer \<Rightarrow> sequencer) \<Rightarrow> real \<Rightarrow> nat option
    \<Rightarrow> sequencer \<Rightarrow> (nat \<times> midi_event) list \<Rightarrow> replay_error + bool \<times> sequencer \<times> action list" where
  "playTo processEvent resetTimers time targetTicks s pending =
    (let s = s\<lparr>oneTickToSeconds := 60 / (120 * timeDivision s)\<rparr>;
         st = initial_replay_state s (resetTimers s)
     in case replay_loop processEvent time targetTicks st pending of
          Inl e \<Rightarrow> Inl e
        | Inr (False, st') \<Rightarrow> Inr (False, seq st', calls st')
        | Inr (True, st') \<Rightarrow>
            (case restore st' of
               Inl e \<Rightarrow> Inl e
             | Inr batch \<Rightarrow> Inr (True, seq st', calls st' @ batch)))"

section \<open>Reference behaviour of the replay\<close>






section \<open>An example voice\<close>

text \<open>The field initialisers and the constructor of \<open>WorkletVolumeEnvelope\<close>.\<close>

definition new_envelope :: "real \<Rightarrow> WorkletVolumeEnvelope" where
  "new_envelope rate =
    \<lparr>currentSampleTime = 0, sampleRate = rate, currentAttenuationDb = DB_SILENCE, state = 0,
     releaseStartDb = 100, releaseStartTimeSamples = 0, currentReleaseGain = Num 1,
     attackDuration = 0, decayDuration = 0, releaseDuration = 0, attenuation = 0, sustainDb = 0,
     delayEnd = 0, attackEnd = 0, holdEnd = 0, decayEnd = 0\<rparr>"

text \<open>
  A voice at 44100 Hz on key 60 with no initial attenuation, 20 dB of sustain attenuation,
  one second each of delay, attack, hold and release and two seconds of full decay.
\<close>

definition example_generators :: "nat \<Rightarrow> int" where
  "example_generators =
     (\<lambda>g. 0)(generatorTypes_sustainVolEnv := 200, generatorTypes_decayVolEnv := 1200)"

definition example_voice :: WorkletVoice where
  "example_voice =
     recalculate \<lparr>volumeEnvelope = new_envelope 44100, modulatedGenerators = example_generators,
                 targetKey = 60, isInRelease = False, finished = False\<rparr>"

text \<open>The example voice moved to stage \<open>s\<close> at clock \<open>t\<close>.\<close>

definition example_voice_at :: "nat \<Rightarrow> real \<Rightarrow> WorkletVoice" where
  "example_voice_at s t =
     example_voice\<lparr>volumeEnvelope := (volumeEnvelope example_voice)\<lparr>state := s, currentSampleTime := t\<rparr>\<rparr>"

text \<open>
  The example voice released in stage \<open>s\<close> at clock \<open>t\<close>, the voice released in the sustain stage
  at clock 200000 and rendered on to clock \<open>t\<close>, and a voice with 10 dB of initial attenuation
  and 100 dB of sustain attenuation, the largest that SoundFont allows.
\<close>

definition example_released :: "nat \<Rightarrow> real \<Rightarrow> WorkletVoice" where
  "example_released s t = startRelease ((example_voice_at s t)\<lparr>isInRelease := True\<rparr>)"

definition example_releasing :: "real \<Rightarrow> WorkletVoice" where
  "example_releasing t =
     (example_released 4 200000)\<lparr>volumeEnvelope :=
        (volumeEnvelope (example_released 4 200000))\<lparr>currentSampleTime := t\<rparr>\<rparr>"

text \<open>
  A voice with the generators of the example voice but a release time of \<open>-32768\<close>
  timecents, released 1000 samples into its delay stage.
\<close>

definition example_instant_release :: WorkletVoice where
  "example_instant_release =
     startRelease
       \<lparr>volumeEnvelope = (new_envelope 44100)\<lparr>currentSampleTime := 1000\<rparr>,
        modulatedGenerators = example_generators(generatorTypes_releaseVolEnv := - 32768),
        targetKey = 60, isInRelease = True, finished = False\<rparr>"

definition example_sustain_over_100 :: WorkletVoice where
  "example_sustain_over_100 =
     \<lparr>volumeEnvelope = new_envelope 44100,
      modulatedGenerators =
        (\<lambda>g. 0)(generatorTypes_initialAttenuation := 100, generatorTypes_sustainVolEnv := 1000),
      targetKey = 60, isInRelease = False, finished = False\<rparr>"

section \<open>An example sequencer\<close>

text \<open>
  A sequencer on one track and one port with sixteen synthesizer channels, in passthrough
  mode or driving the synthesizer, and the events of the examples: a controller change, a
  pitch bend and a note-on, each on a channel at a tick.
\<close>

definition example_sequencer :: "bool \<Rightarrow> sequencer" where
  "example_sequencer passthrough =
    \<lparr>sendMIDIMessages = passthrough, timeDivision = 480, oneTickToSeconds = 0, playedTime = 0,
     midiPorts = [0], midiPortChannelOffsets = Map.empty(0 \<mapsto> 0), channelCount = 16\<rparr>"

definition controller_event :: "nat \<Rightarrow> nat \<Rightarrow> nat \<Rightarrow> nat \<Rightarrow> midi_event" where
  "controller_event t channel controllerNumber v =
    \<lparr>ticks = t, messageStatusByte = messageTypes_controllerChange OR channel,
     messageData = [controllerNumber, v]\<rparr>"


definition note_on_event :: "nat \<Rightarrow> nat \<Rightarrow> nat \<Rightarrow> nat \<Rightarrow> midi_event" where
  "note_on_event t channel key velocity =
    \<lparr>ticks = t, messageStatusByte = messageTypes_noteOn OR channel, messageData = [key, velocity]\<rparr>"

section \<open>Properties of the volume envelope\<close>

lemmas generatorTypes_defs =
  generatorTypes_delayVolEnv_def generatorTypes_attackVolEnv_def generatorTypes_holdVolEnv_def
  generatorTypes_decayVolEnv_def generatorTypes_sustainVolEnv_def generatorTypes_releaseVolEnv_def
  generatorTypes_keyNumToVolEnvHold_def generatorTypes_keyNumToVolEnvDecay_def
  generatorTypes_initialAttenuation_def

lemmas messageTypes_defs =
  messageTypes_noteOff_def messageTypes_noteOn_def messageTypes_controllerChange_def
  messageTypes_pitchBend_def messageTypes_midiPort_def messageTypes_reset_def

lemmas midiControllers_defs =
  midiControllers_bankSelect_def midiControllers_dataEntryMsb_def midiControllers_mainVolume_def
  midiControllers_pan_def midiControllers_expressionController_def
  midiControllers_lsbForControl0BankSelect_def midiControllers_lsbForControl6DataEntry_def
  midiControllers_releaseTime_def midiControllers_brightness_def midiControllers_effects1Depth_def
  midiControllers_dataIncrement_def midiControllers_dataDecrement_def midiControllers_NRPNLsb_def
  midiControllers_NRPNMsb_def midiControllers_RPNLsb_def midiControllers_RPNMsb_def
  midiControllers_resetAllControllers_def

declare release_loop.simps [simp del] delay_loop.simps [simp del] attack_loop.simps [simp del]
  hold_loop.simps [simp del] decay_loop.simps [simp del] sustain_loop.simps [simp del]

subsection \<open>The example voice\<close>

lemma example_voice_envelope:
  "volumeEnvelope example_voice =
    \<lparr>currentSampleTime = 0, sampleRate = 44100, currentAttenuationDb = 100, state = 0,
     releaseStartDb = 100, releaseStartTimeSamples = 0, currentReleaseGain = Num 1,
     attackDuration = 44100, decayDuration = 17640, releaseDuration = 44100, attenuation = 0,
     sustainDb = 20, delayEnd = 44100, attackEnd = 88200, holdEnd = 132300, decayEnd = 149940\<rparr>"
  by (simp add: example_voice_def recalculate_def Let_def new_envelope_def example_generators_def
      generatorTypes_defs timecentsToSamples_def timecentsToSeconds_def DB_SILENCE_def)

lemma example_voice_flags:
  "isInRelease example_voice = False" "finished example_voice = False"
  "targetKey example_voice = 60" "modulatedGenerators example_voice = example_generators"
  by (simp_all add: example_voice_def recalculate_def Let_def)

lemma example_voice_at_simps:
  "isInRelease (example_voice_at s t) = False" "finished (example_voice_at s t) = False"
  "volumeEnvelope (example_voice_at s t) =
    \<lparr>currentSampleTime = t, sampleRate = 44100, currentAttenuationDb = 100, state = s,
     releaseStartDb = 100, releaseStartTimeSamples = 0, currentReleaseGain = Num 1,
     attackDuration = 44100, decayDuration = 17640, releaseDuration = 44100, attenuation = 0,
     sustainDb = 20, delayEnd = 44100, attackEnd = 88200, holdEnd = 132300, decayEnd = 149940\<rparr>"
  by (simp_all add: example_voice_at_def example_voice_envelope example_voice_flags)

lemma gain_of_100_dB: "decibelAttenuationToGain 100 = 1 / 100000"
  by (simp add: decibelAttenuationToGain_def powr_minus_divide)

lemma example_released_pre:
  "example_released s t =
     recalculate ((example_voice_at s t)\<lparr>isInRelease := True,
        volumeEnvelope := (volumeEnvelope (example_voice_at s t))
           \<lparr>releaseStartTimeSamples := t, currentReleaseGain := Num (1 / 100000)\<rparr>\<rparr>)"
  by (simp add: example_released_def startRelease_def Let_def example_voice_at_simps
      gain_of_100_dB)

lemma example_released_envelope:
  "volumeEnvelope (example_released s t) =
    \<lparr>currentSampleTime = t, sampleRate = 44100, currentAttenuationDb = 100, state = s,
     releaseStartDb =
       releaseStartDb_of
         \<lparr>currentSampleTime = t, sampleRate = 44100, currentAttenuationDb = 100, state = s,
          releaseStartDb = 100, releaseStartTimeSamples = t, currentReleaseGain = Num (1 / 100000),
          attackDuration = 44100, decayDuration = 17640, releaseDuration = 44100, attenuation = 0,
          sustainDb = 20, delayEnd = 44100, attackEnd = 88200, holdEnd = 132300, decayEnd = 149940\<rparr>,
     releaseStartTimeSamples = t, currentReleaseGain = Num (1 / 100000),
     attackDuration = 44100, decayDuration = 17640, releaseDuration = 44100, attenuation = 0,
     sustainDb = 20, delayEnd = 44100, attackEnd = 88200, holdEnd = 132300, decayEnd = 149940\<rparr>"
  by (simp add: example_released_pre example_voice_at_def example_voice_flags example_voice_envelope
      recalculate_def Let_def example_generators_def
      generatorTypes_defs timecentsToSamples_def timecentsToSeconds_def)

lemma example_releasing_simps:
  "isInRelease (example_releasing t) = True" "finished (example_releasing t) = False"
  "volumeEnvelope (example_releasing t) =
    \<lparr>currentSampleTime = t, sampleRate = 44100, currentAttenuationDb = 100, state = 4,
     releaseStartDb = 20, releaseStartTimeSamples = 200000, currentReleaseGain = Num (1 / 100000),
     attackDuration = 44100, decayDuration = 17640, releaseDuration = 44100, attenuation = 0,
     sustainDb = 20, delayEnd = 44100, attackEnd = 88200, holdEnd = 132300, decayEnd = 149940\<rparr>"
  by (simp_all add: example_releasing_def example_released_envelope releaseStartDb_of_def)
     (simp_all add: example_released_pre recalculate_def Let_def example_voice_at_simps)

lemma example_instant_release_simps:
  "isInRelease example_instant_release = True" "finished example_instant_release = False"
  "volumeEnvelope example_instant_release =
    \<lparr>currentSampleTime = 1000, sampleRate = 44100, currentAttenuationDb = 100, state = 0,
     releaseStartDb = 100, releaseStartTimeSamples = 1000, currentReleaseGain = Num (1 / 100000),
     attackDuration = 44100, decayDuration = 17640, releaseDuration = 0, attenuation = 0,
     sustainDb = 20, delayEnd = 44100, attackEnd = 88200, holdEnd = 132300, decayEnd = 149940\<rparr>"
  by (simp_all add: example_instant_release_def startRelease_def recalculate_def Let_def
      new_envelope_def example_generators_def generatorTypes_defs timecentsToSamples_def
      timecentsToSeconds_def DB_SILENCE_def releaseStartDb_of_def gain_of_100_dB)

lemma example_sustain_over_100_envelope:
  "volumeEnvelope (recalculate example_sustain_over_100) =
    \<lparr>currentSampleTime = 0, sampleRate = 44100, currentAttenuationDb = 100, state = 0,
     releaseStartDb = 100, releaseStartTimeSamples = 0, currentReleaseGain = Num 1,
     attackDuration = 44100, decayDuration = 49000, releaseDuration = 44100, attenuation = 10,
     sustainDb = 110, delayEnd = 44100, attackEnd = 88200, holdEnd = 132300, decayEnd = 181300\<rparr>"
  by (simp add: example_sustain_over_100_def recalculate_def Let_def new_envelope_def
      generatorTypes_defs timecentsToSamples_def timecentsToSeconds_def DB_SILENCE_def)

subsection \<open>The stage loops on a block that stays inside one stage\<close>

lemma delay_loop_within:
  "filled < length buf \<Longrightarrow>
   currentSampleTime env + real (length buf - Suc filled) < delayEnd env \<Longrightarrow>
   \<exists>buf'. delay_loop env buf filled =
      (True, env\<lparr>currentAttenuationDb := DB_SILENCE,
                currentSampleTime := currentSampleTime env + real (length buf - filled)\<rparr>,
       buf', length buf)
     \<and> length buf' = length buf
     \<and> (\<forall>j < filled. buf' ! j = buf ! j)
     \<and> (\<forall>k < length buf - filled. buf' ! (filled + k) = 0)"
proof (induction env buf filled rule: delay_loop.induct)
  case (1 env buf filled)
  have lt: "currentSampleTime env < delayEnd env"
    using "1.prems" by (smt (verit) of_nat_0_le_iff)
  show ?case
  proof (cases "length buf \<le> filled + 1")
    case True
    with "1.prems" have n: "length buf = Suc filled" by simp
    show ?thesis
      using lt n by (subst delay_loop.simps) (auto simp: less_Suc_eq)
  next
    case False
    let ?env1 = "env\<lparr>currentAttenuationDb := DB_SILENCE, currentSampleTime := currentSampleTime env + 1\<rparr>"
    let ?buf1 = "buf[filled := 0]"
    have p1: "filled + 1 < length ?buf1" using False by simp
    have p2: "currentSampleTime ?env1 + real (length ?buf1 - Suc (filled + 1)) < delayEnd ?env1"
      using "1.prems" False by (simp add: Suc_diff_Suc of_nat_diff)
    from "1.IH"[OF lt False p1 p2] obtain buf' where
      eq: "delay_loop ?env1 ?buf1 (filled + 1) =
        (True, ?env1\<lparr>currentAttenuationDb := DB_SILENCE,
                currentSampleTime := currentSampleTime ?env1 + real (length ?buf1 - (filled + 1))\<rparr>,
         buf', length ?buf1)"
      and len: "length buf' = length ?buf1"
      and low: "\<forall>j < filled + 1. buf' ! j = ?buf1 ! j"
      and hi: "\<forall>k < length ?buf1 - (filled + 1). buf' ! (filled + 1 + k) = 0"
      by blast
    have t: "currentSampleTime env + 1 + real (length buf - (filled + 1))
              = currentSampleTime env + real (length buf - filled)"
      using False by (simp add: of_nat_diff)
    have unfold: "delay_loop env buf filled = delay_loop ?env1 ?buf1 (filled + 1)"
      using lt False by (subst delay_loop.simps) simp
    have hi': "\<forall>k < length buf - filled. buf' ! (filled + k) = 0"
    proof (intro allI impI)
      fix k assume k: "k < length buf - filled"
      show "buf' ! (filled + k) = 0"
      proof (cases k)
        case 0
        then show ?thesis using low "1.prems"(1) by simp
      next
        case (Suc k')
        then show ?thesis using hi k by simp
      qed
    qed
    show ?thesis
      unfolding unfold eq using len low hi' t by simp
  qed
qed


lemma attack_loop_within:
  "filled < length buf \<Longrightarrow>
   currentSampleTime env + real (length buf - Suc filled) < attackEnd env \<Longrightarrow>
   \<exists>buf'. attack_loop off env buf filled =
      (True, env\<lparr>currentAttenuationDb := attenuation env,
                currentSampleTime := currentSampleTime env + real (length buf - filled)\<rparr>,
       buf', length buf)
     \<and> length buf' = length buf
     \<and> (\<forall>j < filled. buf' ! j = buf ! j)
     \<and> (\<forall>k < length buf - filled. buf' ! (filled + k) = buf ! (filled + k) *
           ((1 - (attackEnd env - (currentSampleTime env + real k)) / attackDuration env)
              * decibelAttenuationToGain (attenuation env + off)))"
proof (induction off env buf filled rule: attack_loop.induct)
  case (1 off env buf filled)
  let ?g = "(1 - (attackEnd env - currentSampleTime env) / attackDuration env)
              * decibelAttenuationToGain (attenuation env + off)"
  have lt: "currentSampleTime env < attackEnd env"
    using "1.prems" by (smt (verit) of_nat_0_le_iff)
  show ?case
  proof (cases "length buf \<le> filled + 1")
    case True
    with "1.prems" have n: "length buf = Suc filled" by simp
    show ?thesis
      using lt n by (subst attack_loop.simps) (auto simp: less_Suc_eq)
  next
    case False
    let ?env1 = "env\<lparr>currentAttenuationDb := attenuation env, currentSampleTime := currentSampleTime env + 1\<rparr>"
    let ?buf1 = "buf[filled := buf ! filled * ?g]"
    have p1: "filled + 1 < length ?buf1" using False by simp
    have p2: "currentSampleTime ?env1 + real (length ?buf1 - Suc (filled + 1)) < attackEnd ?env1"
      using "1.prems" False by (simp add: Suc_diff_Suc of_nat_diff)
    from "1.IH"[OF lt False p1 p2] obtain buf' where
      eq: "attack_loop off ?env1 ?buf1 (filled + 1) =
        (True, ?env1\<lparr>currentAttenuationDb := attenuation ?env1,
                currentSampleTime := currentSampleTime ?env1 + real (length ?buf1 - (filled + 1))\<rparr>,
         buf', length ?buf1)"
      and len: "length buf' = length ?buf1"
      and low: "\<forall>j < filled + 1. buf' ! j = ?buf1 ! j"
      and hi: "\<forall>k < length ?buf1 - (filled + 1). buf' ! (filled + 1 + k) = ?buf1 ! (filled + 1 + k) *
           ((1 - (attackEnd ?env1 - (currentSampleTime ?env1 + real k)) / attackDuration ?env1)
              * decibelAttenuationToGain (attenuation ?env1 + off))"
      by blast
    have t: "currentSampleTime env + 1 + real (length buf - (filled + 1))
              = currentSampleTime env + real (length buf - filled)"
      using False by (simp add: of_nat_diff)
    have unfold: "attack_loop off env buf filled = attack_loop off ?env1 ?buf1 (filled + 1)"
      using lt False by (subst attack_loop.simps) simp
    have hi': "\<forall>k < length buf - filled. buf' ! (filled + k) = buf ! (filled + k) *
           ((1 - (attackEnd env - (currentSampleTime env + real k)) / attackDuration env)
              * decibelAttenuationToGain (attenuation env + off))"
    proof (intro allI impI)
      fix k assume k: "k < length buf - filled"
      show "buf' ! (filled + k) = buf ! (filled + k) *
           ((1 - (attackEnd env - (currentSampleTime env + real k)) / attackDuration env)
              * decibelAttenuationToGain (attenuation env + off))"
      proof (cases k)
        case 0
        then show ?thesis using low "1.prems"(1) by simp
      next
        case (Suc k')
        with k have "k' < length ?buf1 - (filled + 1)" by simp
        with hi have "buf' ! (filled + 1 + k') = ?buf1 ! (filled + 1 + k') *
           ((1 - (attackEnd ?env1 - (currentSampleTime ?env1 + real k')) / attackDuration ?env1)
              * decibelAttenuationToGain (attenuation ?env1 + off))" by blast
        then show ?thesis using Suc by (simp add: add.assoc)
      qed
    qed
    show ?thesis
      unfolding unfold eq using len low hi' t by simp
  qed
qed

lemma interpolated_step_eq:
  "interpolated_step target sf env buf filled =
    (env\<lparr>currentAttenuationDb := currentAttenuationDb env + (target - currentAttenuationDb env) * sf,
         currentSampleTime := currentSampleTime env + 1\<rparr>,
     buf[filled := buf ! filled *
        decibelAttenuationToGain (currentAttenuationDb env + (target - currentAttenuationDb env) * sf)])"
  by (simp add: interpolated_step_def getInterpolatedGain_def Let_def)

lemma hold_loop_within:
  "filled < length buf \<Longrightarrow>
   currentSampleTime env + real (length buf - Suc filled) < holdEnd env \<Longrightarrow>
   \<exists>buf'. hold_loop off sf env buf filled =
      (True, env\<lparr>currentAttenuationDb :=
                  smoothed (currentAttenuationDb env) sf
                    (replicate (length buf - filled) (attenuation env + off)),
                currentSampleTime := currentSampleTime env + real (length buf - filled)\<rparr>,
       buf', length buf)
     \<and> length buf' = length buf
     \<and> (\<forall>j < filled. buf' ! j = buf ! j)
     \<and> (\<forall>k < length buf - filled. buf' ! (filled + k) = buf ! (filled + k) *
           decibelAttenuationToGain
             (smoothed (currentAttenuationDb env) sf (replicate (Suc k) (attenuation env + off))))"
proof (induction off sf env buf filled rule: hold_loop.induct)
  case (1 off sf env buf filled)
  let ?c1 = "currentAttenuationDb env + (attenuation env + off - currentAttenuationDb env) * sf"
  let ?env1 = "env\<lparr>currentAttenuationDb := ?c1, currentSampleTime := currentSampleTime env + 1\<rparr>"
  let ?buf1 = "buf[filled := buf ! filled * decibelAttenuationToGain ?c1]"
  have step: "interpolated_step (attenuation env + off) sf env buf filled = (?env1, ?buf1)"
    by (simp add: interpolated_step_eq)
  have lt: "currentSampleTime env < holdEnd env"
    using "1.prems" by (smt (verit) of_nat_0_le_iff)
  show ?case
  proof (cases "length buf \<le> filled + 1")
    case True
    with "1.prems" have n: "length buf = Suc filled" by simp
    show ?thesis
      using lt n by (subst hold_loop.simps) (auto simp: less_Suc_eq step)
  next
    case False
    have p1: "filled + 1 < length ?buf1" using False by simp
    have p2: "currentSampleTime ?env1 + real (length ?buf1 - Suc (filled + 1)) < holdEnd ?env1"
      using "1.prems" False by (simp add: Suc_diff_Suc of_nat_diff)
    from "1.IH"[OF lt step[symmetric] False p1 p2] obtain buf' where
      eq: "hold_loop off sf ?env1 ?buf1 (filled + 1) =
        (True, ?env1\<lparr>currentAttenuationDb :=
                  smoothed (currentAttenuationDb ?env1) sf
                    (replicate (length ?buf1 - (filled + 1)) (attenuation ?env1 + off)),
                currentSampleTime := currentSampleTime ?env1 + real (length ?buf1 - (filled + 1))\<rparr>,
         buf', length ?buf1)"
      and len: "length buf' = length ?buf1"
      and low: "\<forall>j < filled + 1. buf' ! j = ?buf1 ! j"
      and hi: "\<forall>k < length ?buf1 - (filled + 1). buf' ! (filled + 1 + k) = ?buf1 ! (filled + 1 + k) *
           decibelAttenuationToGain
             (smoothed (currentAttenuationDb ?env1) sf (replicate (Suc k) (attenuation ?env1 + off)))"
      by blast
    have t: "currentSampleTime env + 1 + real (length buf - (filled + 1))
              = currentSampleTime env + real (length buf - filled)"
      using False by (simp add: of_nat_diff)
    have r: "length buf - filled = Suc (length buf - (filled + 1))"
      using False by simp
    have unfold: "hold_loop off sf env buf filled = hold_loop off sf ?env1 ?buf1 (filled + 1)"
      using lt False by (subst hold_loop.simps) (simp add: step)
    have hi': "\<forall>k < length buf - filled. buf' ! (filled + k) = buf ! (filled + k) *
           decibelAttenuationToGain
             (smoothed (currentAttenuationDb env) sf (replicate (Suc k) (attenuation env + off)))"
    proof (intro allI impI)
      fix k assume k: "k < length buf - filled"
      show "buf' ! (filled + k) = buf ! (filled + k) *
           decibelAttenuationToGain
             (smoothed (currentAttenuationDb env) sf (replicate (Suc k) (attenuation env + off)))"
      proof (cases k)
        case 0
        then show ?thesis using low "1.prems"(1) by simp
      next
        case (Suc k')
        with k have "k' < length ?buf1 - (filled + 1)" by simp
        with hi have "buf' ! (filled + 1 + k') = ?buf1 ! (filled + 1 + k') *
           decibelAttenuationToGain
             (smoothed (currentAttenuationDb ?env1) sf (replicate (Suc k') (attenuation ?env1 + off)))"
          by blast
        then show ?thesis using Suc by (simp add: add.assoc)
      qed
    qed
    show ?thesis
      unfolding unfold eq using len low hi' t by (simp add: r)
  qed
qed


lemma smoothed_map_shift:
  "smoothed c sf (map f [0..<Suc N]) = smoothed (c + (f 0 - c) * sf) sf (map (\<lambda>i. f (Suc i)) [0..<N])"
  by (simp add: map_upt_Suc del: upt_Suc)

lemma sustain_loop_run:
  "filled < length buf \<Longrightarrow>
   \<exists>buf'. sustain_loop off sf env buf filled =
      (env\<lparr>currentAttenuationDb :=
                  smoothed (currentAttenuationDb env) sf
                    (replicate (length buf - filled) (sustainDb env + off)),
                currentSampleTime := currentSampleTime env + real (length buf - filled)\<rparr>,
       buf')
     \<and> length buf' = length buf
     \<and> (\<forall>j < filled. buf' ! j = buf ! j)
     \<and> (\<forall>k < length buf - filled. buf' ! (filled + k) = buf ! (filled + k) *
           decibelAttenuationToGain
             (smoothed (currentAttenuationDb env) sf (replicate (Suc k) (sustainDb env + off))))"
proof (induction off sf env buf filled rule: sustain_loop.induct)
  case (1 off sf env buf filled)
  let ?c1 = "currentAttenuationDb env + (sustainDb env + off - currentAttenuationDb env) * sf"
  let ?env1 = "env\<lparr>currentAttenuationDb := ?c1, currentSampleTime := currentSampleTime env + 1\<rparr>"
  let ?buf1 = "buf[filled := buf ! filled * decibelAttenuationToGain ?c1]"
  have step: "interpolated_step (sustainDb env + off) sf env buf filled = (?env1, ?buf1)"
    by (simp add: interpolated_step_eq)
  show ?case
  proof (cases "length buf \<le> filled + 1")
    case True
    with "1.prems" have n: "length buf = Suc filled" by simp
    show ?thesis
      using n by (subst sustain_loop.simps) (auto simp: less_Suc_eq step)
  next
    case False
    have p1: "filled + 1 < length ?buf1" using False by simp
    from "1.IH"[OF step[symmetric] False p1] obtain buf' where
      eq: "sustain_loop off sf ?env1 ?buf1 (filled + 1) =
        (?env1\<lparr>currentAttenuationDb :=
                  smoothed (currentAttenuationDb ?env1) sf
                    (replicate (length ?buf1 - (filled + 1)) (sustainDb ?env1 + off)),
                currentSampleTime := currentSampleTime ?env1 + real (length ?buf1 - (filled + 1))\<rparr>,
         buf')"
      and len: "length buf' = length ?buf1"
      and low: "\<forall>j < filled + 1. buf' ! j = ?buf1 ! j"
      and hi: "\<forall>k < length ?buf1 - (filled + 1). buf' ! (filled + 1 + k) = ?buf1 ! (filled + 1 + k) *
           decibelAttenuationToGain
             (smoothed (currentAttenuationDb ?env1) sf (replicate (Suc k) (sustainDb ?env1 + off)))"
      by blast
    have t: "currentSampleTime env + 1 + real (length buf - (filled + 1))
              = currentSampleTime env + real (length buf - filled)"
      using False by (simp add: of_nat_diff)
    have r: "length buf - filled = Suc (length buf - (filled + 1))"
      using False by simp
    have unfold: "sustain_loop off sf env buf filled = sustain_loop off sf ?env1 ?buf1 (filled + 1)"
      using False by (subst sustain_loop.simps) (simp add: step)
    have hi': "\<forall>k < length buf - filled. buf' ! (filled + k) = buf ! (filled + k) *
           decibelAttenuationToGain
             (smoothed (currentAttenuationDb env) sf (replicate (Suc k) (sustainDb env + off)))"
    proof (intro allI impI)
      fix k assume k: "k < length buf - filled"
      show "buf' ! (filled + k) = buf ! (filled + k) *
           decibelAttenuationToGain
             (smoothed (currentAttenuationDb env) sf (replicate (Suc k) (sustainDb env + off)))"
      proof (cases k)
        case 0
        then show ?thesis using low "1.prems"(1) by simp
      next
        case (Suc k')
        with k have "k' < length ?buf1 - (filled + 1)" by simp
        with hi have "buf' ! (filled + 1 + k') = ?buf1 ! (filled + 1 + k') *
           decibelAttenuationToGain
             (smoothed (currentAttenuationDb ?env1) sf (replicate (Suc k') (sustainDb ?env1 + off)))"
          by blast
        then show ?thesis using Suc by (simp add: add.assoc)
      qed
    qed
    show ?thesis
      unfolding unfold eq using len low hi' t by (simp add: r)
  qed
qed

lemma decay_loop_within:
  "filled < length buf \<Longrightarrow>
   currentSampleTime env + 2 * real (length buf - Suc filled) < decayEnd env \<Longrightarrow>
   \<exists>buf'. decay_loop off sf dd env buf filled =
      (True, env\<lparr>currentAttenuationDb :=
                  smoothed (currentAttenuationDb env) sf
                    (map (\<lambda>m. (1 - (decayEnd env - (currentSampleTime env + 2 * real m + 1))
                                       / decayDuration env) * dd + attenuation env + off)
                       [0..<length buf - filled]),
                currentSampleTime := currentSampleTime env + 2 * real (length buf - filled)\<rparr>,
       buf', length buf)
     \<and> length buf' = length buf
     \<and> (\<forall>j < filled. buf' ! j = buf ! j)
     \<and> (\<forall>k < length buf - filled. buf' ! (filled + k) = buf ! (filled + k) *
           decibelAttenuationToGain
             (smoothed (currentAttenuationDb env) sf
                (map (\<lambda>m. (1 - (decayEnd env - (currentSampleTime env + 2 * real m + 1))
                                       / decayDuration env) * dd + attenuation env + off)
                   [0..<Suc k])))"
proof (induction off sf dd env buf filled rule: decay_loop.induct)
  case (1 off sf dd env buf filled)
  define F where "F = (\<lambda>m. (1 - (decayEnd env - (currentSampleTime env + 2 * real m + 1))
                                       / decayDuration env) * dd + attenuation env + off)"
  let ?tg = "(1 - (decayEnd env - (currentSampleTime env + 1)) / decayDuration env) * dd
                 + attenuation env + off"
  let ?c1 = "currentAttenuationDb env + (?tg - currentAttenuationDb env) * sf"
  let ?env1 = "env\<lparr>currentAttenuationDb := ?c1, currentSampleTime := currentSampleTime env + 1 + 1\<rparr>"
  let ?buf1 = "buf[filled := buf ! filled * decibelAttenuationToGain ?c1]"
  have F0: "F 0 = ?tg" by (simp add: F_def)
  have FS: "\<And>i. (1 - (decayEnd ?env1 - (currentSampleTime ?env1 + 2 * real i + 1))
                        / decayDuration ?env1) * dd + attenuation ?env1 + off = F (Suc i)"
    by (simp add: F_def algebra_simps)
  have step: "interpolated_step ?tg sf (env\<lparr>currentSampleTime := currentSampleTime env + 1\<rparr>)
                 buf filled = (?env1, ?buf1)"
    by (simp add: interpolated_step_eq)
  have lt: "currentSampleTime env < decayEnd env"
    using "1.prems" by (smt (verit) of_nat_0_le_iff)
  show ?case
    unfolding F_def[symmetric]
  proof (cases "length buf \<le> filled + 1")
    case True
    with "1.prems" have n: "length buf = Suc filled" by simp
    show "\<exists>buf'. decay_loop off sf dd env buf filled =
      (True, env\<lparr>currentAttenuationDb :=
                  smoothed (currentAttenuationDb env) sf (map F [0..<length buf - filled]),
                currentSampleTime := currentSampleTime env + 2 * real (length buf - filled)\<rparr>,
       buf', length buf)
     \<and> length buf' = length buf
     \<and> (\<forall>j < filled. buf' ! j = buf ! j)
     \<and> (\<forall>k < length buf - filled. buf' ! (filled + k) = buf ! (filled + k) *
           decibelAttenuationToGain (smoothed (currentAttenuationDb env) sf (map F [0..<Suc k])))"
      using lt n by (subst decay_loop.simps) (auto simp: less_Suc_eq step F0)
  next
    case False
    have p1: "filled + 1 < length ?buf1" using False by simp
    have p2: "currentSampleTime ?env1 + 2 * real (length ?buf1 - Suc (filled + 1)) < decayEnd ?env1"
      using "1.prems" False by (simp add: Suc_diff_Suc of_nat_diff)
    from "1.IH"[OF lt step[symmetric] False p1 p2] obtain buf' where
      eq: "decay_loop off sf dd ?env1 ?buf1 (filled + 1) =
        (True, ?env1\<lparr>currentAttenuationDb :=
                  smoothed (currentAttenuationDb ?env1) sf
                    (map (\<lambda>m. F (Suc m)) [0..<length ?buf1 - (filled + 1)]),
                currentSampleTime := currentSampleTime ?env1 + 2 * real (length ?buf1 - (filled + 1))\<rparr>,
         buf', length ?buf1)"
      and len: "length buf' = length ?buf1"
      and low: "\<forall>j < filled + 1. buf' ! j = ?buf1 ! j"
      and hi: "\<forall>k < length ?buf1 - (filled + 1). buf' ! (filled + 1 + k) = ?buf1 ! (filled + 1 + k) *
           decibelAttenuationToGain
             (smoothed (currentAttenuationDb ?env1) sf (map (\<lambda>m. F (Suc m)) [0..<Suc k]))"
      unfolding FS by blast
    have t: "currentSampleTime env + 1 + 1 + 2 * real (length buf - (filled + 1))
              = currentSampleTime env + 2 * real (length buf - filled)"
      using False by (simp add: of_nat_diff)
    have r: "length buf - filled = Suc (length buf - (filled + 1))"
      using False by simp
    have unfold: "decay_loop off sf dd env buf filled = decay_loop off sf dd ?env1 ?buf1 (filled + 1)"
      using lt False by (subst decay_loop.simps) (simp add: step)
    have hi': "\<forall>k < length buf - filled. buf' ! (filled + k) = buf ! (filled + k) *
           decibelAttenuationToGain (smoothed (currentAttenuationDb env) sf (map F [0..<Suc k]))"
    proof (intro allI impI)
      fix k assume k: "k < length buf - filled"
      show "buf' ! (filled + k) = buf ! (filled + k) *
           decibelAttenuationToGain (smoothed (currentAttenuationDb env) sf (map F [0..<Suc k]))"
      proof (cases k)
        case 0
        then show ?thesis using low "1.prems"(1) by (simp add: F0)
      next
        case (Suc k')
        with k have "k' < length ?buf1 - (filled + 1)" by simp
        with hi have "buf' ! (filled + 1 + k') = ?buf1 ! (filled + 1 + k') *
           decibelAttenuationToGain
             (smoothed (currentAttenuationDb ?env1) sf (map (\<lambda>m. F (Suc m)) [0..<Suc k']))"
          by blast
        then show ?thesis unfolding Suc smoothed_map_shift[of _ _ F "Suc k'"]
          by (simp add: add.assoc F0 del: upt_Suc)
      qed
    qed
    have cur: "smoothed (currentAttenuationDb env) sf (map F [0..<length buf - filled])
        = smoothed ?c1 sf (map (\<lambda>m. F (Suc m)) [0..<length buf - (filled + 1)])"
      unfolding r smoothed_map_shift by (simp add: F0)
    show "\<exists>buf'. decay_loop off sf dd env buf filled =
      (True, env\<lparr>currentAttenuationDb :=
                  smoothed (currentAttenuationDb env) sf (map F [0..<length buf - filled]),
                currentSampleTime := currentSampleTime env + 2 * real (length buf - filled)\<rparr>,
       buf', length buf)
     \<and> length buf' = length buf
     \<and> (\<forall>j < filled. buf' ! j = buf ! j)
     \<and> (\<forall>k < length buf - filled. buf' ! (filled + k) = buf ! (filled + k) *
           decibelAttenuationToGain (smoothed (currentAttenuationDb env) sf (map F [0..<Suc k])))"
      unfolding unfold eq cur using len low hi' t by simp
  qed
qed


lemma jsnumber_minus_Num [simp]: "Num a - Num b = Num (a - b)"
  by (simp add: minus_jsnumber_def)

lemma jsnumber_NaN_right [simp]: "x + NaN = NaN" "x * NaN = NaN"
  by (cases x; simp)+

lemma jsnumber_NaN_minus [simp]: "NaN - y = NaN" "x - NaN = NaN"
  by (simp_all add: minus_jsnumber_def)

lemma release_loop_step:
  assumes "i < length buf"
  shows "release_loop off rsf dd env buf e db i =
    release_loop off rsf dd
      (env\<lparr>currentReleaseGain :=
               currentReleaseGain env
               + (decibelAttenuationToGain_number
                    ((Num e / Num (releaseDuration env)) * Num dd + Num (releaseStartDb env) + Num off)
                  - currentReleaseGain env) * Num rsf,
            currentSampleTime := currentSampleTime env + 1\<rparr>)
      (buf[i := buf ! i *
          (currentReleaseGain env
             + (decibelAttenuationToGain_number
                  ((Num e / Num (releaseDuration env)) * Num dd + Num (releaseStartDb env) + Num off)
                - currentReleaseGain env) * Num rsf)])
      (e + 1)
      ((Num e / Num (releaseDuration env)) * Num dd + Num (releaseStartDb env))
      (i + 1)"
  using assms by (subst release_loop.simps) simp

lemma release_loop_done:
  "length buf \<le> i \<Longrightarrow> release_loop off rsf dd env buf e db i = (env, buf, db)"
  by (subst release_loop.simps) simp

lemma release_loop_run:
  assumes "releaseDuration env \<noteq> 0" and "currentReleaseGain env = Num g" and "i \<le> length buf"
  shows
   "\<exists>buf'. release_loop off rsf dd env (map Num buf) e db i =
      (env\<lparr>currentReleaseGain :=
                  Num (smoothed g rsf
                    (map (\<lambda>m. decibelAttenuationToGain
                            (((e + real m) / releaseDuration env) * dd + releaseStartDb env + off))
                       [0..<length buf - i])),
                currentSampleTime := currentSampleTime env + real (length buf - i)\<rparr>,
       map Num buf',
       (if i < length buf
        then Num (((e + real (length buf - Suc i)) / releaseDuration env) * dd + releaseStartDb env)
        else db))
     \<and> length buf' = length buf
     \<and> (\<forall>j < i. buf' ! j = buf ! j)
     \<and> (\<forall>k < length buf - i. buf' ! (i + k) = buf ! (i + k) *
           smoothed g rsf
             (map (\<lambda>m. decibelAttenuationToGain
                     (((e + real m) / releaseDuration env) * dd + releaseStartDb env + off))
                [0..<Suc k]))"
  using assms
proof (induction "length buf - i" arbitrary: env buf e db i g)
  case 0
  then have "length buf \<le> i" "i = length buf" by simp_all
  then show ?case
    using "0.prems"(2) by (auto simp: release_loop_done intro!: exI[of _ buf])
next
  case (Suc n)
  define G where "G = (\<lambda>m. decibelAttenuationToGain
                     (((e + real m) / releaseDuration env) * dd + releaseStartDb env + off))"
  let ?db = "(e / releaseDuration env) * dd + releaseStartDb env"
  let ?g1 = "g + (decibelAttenuationToGain (?db + off) - g) * rsf"
  let ?env1 = "env\<lparr>currentReleaseGain := Num ?g1, currentSampleTime := currentSampleTime env + 1\<rparr>"
  let ?buf1 = "buf[i := buf ! i * ?g1]"
  have True: "i < length buf" using Suc.hyps(2) by simp
  have G0: "G 0 = decibelAttenuationToGain (?db + off)" by (simp add: G_def)
  have GS: "\<And>m. decibelAttenuationToGain
                     (((e + 1 + real m) / releaseDuration ?env1) * dd + releaseStartDb ?env1 + off)
                 = G (Suc m)"
    by (simp add: G_def algebra_simps)
  have unfold: "release_loop off rsf dd env (map Num buf) e db i
        = release_loop off rsf dd ?env1 (map Num ?buf1) (e + 1) (Num ?db) (i + 1)"
    using True Suc.prems(1,2)
    by (simp add: release_loop_step decibelAttenuationToGain_number_def map_update)
  have n: "n = length ?buf1 - (i + 1)" using Suc.hyps(2) by simp
  have p1: "i + 1 \<le> length ?buf1" using True by simp
  have rd: "releaseDuration ?env1 \<noteq> 0" using Suc.prems(1) by simp
  have cg: "currentReleaseGain ?env1 = Num ?g1" by simp
  from Suc.hyps(1)[OF n rd cg p1, of "e + 1" "Num ?db"] obtain buf' where
      eq: "release_loop off rsf dd ?env1 (map Num ?buf1) (e + 1) (Num ?db) (i + 1) =
        (?env1\<lparr>currentReleaseGain :=
                  Num (smoothed ?g1 rsf (map (\<lambda>m. G (Suc m)) [0..<length ?buf1 - (i + 1)])),
                currentSampleTime := currentSampleTime ?env1 + real (length ?buf1 - (i + 1))\<rparr>,
         map Num buf',
         (if i + 1 < length ?buf1
          then Num (((e + 1 + real (length ?buf1 - Suc (i + 1))) / releaseDuration ?env1) * dd
                 + releaseStartDb ?env1)
          else Num ?db))"
      and len: "length buf' = length ?buf1"
      and low: "\<forall>j < i + 1. buf' ! j = ?buf1 ! j"
      and hi: "\<forall>k < length ?buf1 - (i + 1). buf' ! (i + 1 + k) = ?buf1 ! (i + 1 + k) *
           smoothed ?g1 rsf (map (\<lambda>m. G (Suc m)) [0..<Suc k])"
    unfolding GS by blast
  have t: "currentSampleTime env + 1 + real (length buf - (i + 1))
              = currentSampleTime env + real (length buf - i)"
    using True by (simp add: of_nat_diff)
  have r: "length buf - i = Suc (length buf - (i + 1))"
    using True by simp
  have dbv: "(if i + 1 < length ?buf1
          then Num (((e + 1 + real (length ?buf1 - Suc (i + 1))) / releaseDuration ?env1) * dd
                 + releaseStartDb ?env1)
          else Num ?db)
       = Num (((e + real (length buf - Suc i)) / releaseDuration env) * dd + releaseStartDb env)"
  proof (cases "i + 1 < length buf")
    case True
    then have "1 + real (length buf - Suc (i + 1)) = real (length buf - Suc i)"
      by (simp add: of_nat_diff)
    then show ?thesis using True by (simp add: add.assoc)
  next
    case False
    with True have "length buf - Suc i = 0" by simp
    then show ?thesis using False by simp
  qed
  have hi': "\<forall>k < length buf - i. buf' ! (i + k) = buf ! (i + k) *
           smoothed g rsf (map G [0..<Suc k])"
  proof (intro allI impI)
    fix k assume k: "k < length buf - i"
    show "buf' ! (i + k) = buf ! (i + k) * smoothed g rsf (map G [0..<Suc k])"
    proof (cases k)
      case 0
      then show ?thesis using low True by (simp add: G0)
    next
      case (Suc k')
      with k have "k' < length ?buf1 - (i + 1)" by simp
      with hi have "buf' ! (i + 1 + k') = ?buf1 ! (i + 1 + k') *
           smoothed ?g1 rsf (map (\<lambda>m. G (Suc m)) [0..<Suc k'])"
        by blast
      then show ?thesis unfolding Suc smoothed_map_shift[of _ _ G "Suc k'"]
        by (simp add: add.assoc G0 del: upt_Suc)
    qed
  qed
  have cur: "smoothed g rsf (map G [0..<length buf - i])
        = smoothed ?g1 rsf (map (\<lambda>m. G (Suc m)) [0..<length buf - (i + 1)])"
    unfolding r smoothed_map_shift by (simp add: G0)
  show ?case
    unfolding G_def[symmetric] unfold eq dbv cur using len low hi' t True
    by (intro exI[of _ buf']) simp
qed

lemma decay_loop_exit:
  "filled < length buf \<Longrightarrow>
   decayEnd env \<le> currentSampleTime env + 2 * real (length buf - Suc filled) \<Longrightarrow>
   \<not> fst (decay_loop off sf dd env buf filled)"
proof (induction off sf dd env buf filled rule: decay_loop.induct)
  case (1 off sf dd env buf filled)
  show ?case
  proof (cases "currentSampleTime env < decayEnd env")
    case False
    then show ?thesis by (subst decay_loop.simps) simp
  next
    case True
    with "1.prems" have nz: "length buf - Suc filled \<noteq> 0" by auto
    then have False': "\<not> length buf \<le> filled + 1" by simp
    let ?tg = "(1 - (decayEnd env - (currentSampleTime env + 1)) / decayDuration env) * dd
                 + attenuation env + off"
    let ?c1 = "currentAttenuationDb env + (?tg - currentAttenuationDb env) * sf"
    let ?env1 = "env\<lparr>currentAttenuationDb := ?c1, currentSampleTime := currentSampleTime env + 1 + 1\<rparr>"
    let ?buf1 = "buf[filled := buf ! filled * decibelAttenuationToGain ?c1]"
    have step: "interpolated_step ?tg sf (env\<lparr>currentSampleTime := currentSampleTime env + 1\<rparr>)
                 buf filled = (?env1, ?buf1)"
      by (simp add: interpolated_step_eq)
    have p1: "filled + 1 < length ?buf1" using False' by simp
    have p2: "decayEnd ?env1 \<le> currentSampleTime ?env1 + 2 * real (length ?buf1 - Suc (filled + 1))"
      using "1.prems" False' by (simp add: Suc_diff_Suc of_nat_diff)
    have unfold: "decay_loop off sf dd env buf filled = decay_loop off sf dd ?env1 ?buf1 (filled + 1)"
      using True False' by (subst decay_loop.simps) (simp add: step)
    show ?thesis unfolding unfold by (rule "1.IH"[OF True step[symmetric] False' p1 p2])
  qed
qed

lemma decay_loop_state:
  "state (fst (snd (decay_loop off sf dd env buf filled))) = state env"
proof (induction off sf dd env buf filled rule: decay_loop.induct)
  case (1 off sf dd env buf filled)
  show ?case
    apply (subst decay_loop.simps)
    using "1.IH" by (auto simp: interpolated_step_eq split: prod.splits)
qed

lemma sustain_loop_state:
  "state (fst (sustain_loop off sf env buf filled)) = state env"
proof (induction off sf env buf filled rule: sustain_loop.induct)
  case (1 off sf env buf filled)
  show ?case
    apply (subst sustain_loop.simps)
    using "1.IH" by (auto simp: interpolated_step_eq split: prod.splits)
qed


lemma delay_case_within:
  assumes "buf \<noteq> []" "currentSampleTime env + real (length buf - 1) < delayEnd env"
  shows "\<exists>buf'. delay_case off sf env buf 0 =
      (env\<lparr>currentAttenuationDb := DB_SILENCE,
            currentSampleTime := currentSampleTime env + real (length buf)\<rparr>, buf')
     \<and> length buf' = length buf \<and> (\<forall>k < length buf. buf' ! k = 0)"
  using delay_loop_within[of 0 buf env] assms
  by (auto simp: delay_case_def)

lemma attack_case_within:
  assumes "buf \<noteq> []" "currentSampleTime env + real (length buf - 1) < attackEnd env"
  shows "\<exists>buf'. attack_case off sf env buf 0 =
      (env\<lparr>currentAttenuationDb := attenuation env,
            currentSampleTime := currentSampleTime env + real (length buf)\<rparr>, buf')
     \<and> length buf' = length buf
     \<and> (\<forall>k < length buf. buf' ! k = buf ! k *
           ((1 - (attackEnd env - (currentSampleTime env + real k)) / attackDuration env)
              * decibelAttenuationToGain (attenuation env + off)))"
  using attack_loop_within[of 0 buf env off] assms
  by (auto simp: attack_case_def)

lemma hold_case_within:
  assumes "buf \<noteq> []" "currentSampleTime env + real (length buf - 1) < holdEnd env"
  shows "\<exists>buf'. hold_case off sf env buf 0 =
      (env\<lparr>currentAttenuationDb :=
              smoothed (currentAttenuationDb env) sf (replicate (length buf) (attenuation env + off)),
            currentSampleTime := currentSampleTime env + real (length buf)\<rparr>, buf')
     \<and> length buf' = length buf
     \<and> (\<forall>k < length buf. buf' ! k = buf ! k *
           decibelAttenuationToGain
             (smoothed (currentAttenuationDb env) sf (replicate (Suc k) (attenuation env + off))))"
  using hold_loop_within[of 0 buf env off sf] assms
  by (auto simp: hold_case_def)

lemma decay_case_within:
  assumes "buf \<noteq> []" "currentSampleTime env + 2 * real (length buf - 1) < decayEnd env"
  shows "\<exists>buf'. decay_case off sf env buf 0 =
      (env\<lparr>currentAttenuationDb :=
              smoothed (currentAttenuationDb env) sf
                (map (\<lambda>m. (1 - (decayEnd env - (currentSampleTime env + 2 * real m + 1))
                                  / decayDuration env) * (sustainDb env - attenuation env)
                             + attenuation env + off)
                   [0..<length buf]),
            currentSampleTime := currentSampleTime env + 2 * real (length buf)\<rparr>, buf')
     \<and> length buf' = length buf
     \<and> (\<forall>k < length buf. buf' ! k = buf ! k *
           decibelAttenuationToGain
             (smoothed (currentAttenuationDb env) sf
                (map (\<lambda>m. (1 - (decayEnd env - (currentSampleTime env + 2 * real m + 1))
                                  / decayDuration env) * (sustainDb env - attenuation env)
                             + attenuation env + off)
                   [0..<Suc k])))"
  using decay_loop_within[of 0 buf env off sf "sustainDb env - attenuation env"] assms
  by (auto simp: decay_case_def simp del: upt_Suc)

lemma sustain_case_run:
  assumes "buf \<noteq> []"
  shows "\<exists>buf'. sustain_case off sf env buf 0 =
      (env\<lparr>currentAttenuationDb :=
              smoothed (currentAttenuationDb env) sf (replicate (length buf) (sustainDb env + off)),
            currentSampleTime := currentSampleTime env + real (length buf)\<rparr>, buf')
     \<and> length buf' = length buf
     \<and> (\<forall>k < length buf. buf' ! k = buf ! k *
           decibelAttenuationToGain
             (smoothed (currentAttenuationDb env) sf (replicate (Suc k) (sustainDb env + off))))"
  using sustain_loop_run[of 0 buf off sf env] assms
  by (auto simp: sustain_case_def)

lemma decay_case_exit:
  assumes "buf \<noteq> []" "decayEnd env \<le> currentSampleTime env + 2 * real (length buf - 1)"
  shows "state (fst (decay_case off sf env buf 0)) = state env + 1"
proof -
  obtain r env' buf' f' where
    dl: "decay_loop off sf (sustainDb env - attenuation env) env buf 0 = (r, env', buf', f')"
    by (metis prod_cases4)
  from decay_loop_exit[of 0 buf env off sf "sustainDb env - attenuation env"] assms dl
  have "\<not> r" by simp
  moreover from decay_loop_state[of off sf "sustainDb env - attenuation env" env buf 0] dl
  have "state env' = state env" by simp
  ultimately show ?thesis
    by (simp add: decay_case_def dl sustain_case_def sustain_loop_state)
qed

lemma envelope_apply_stage:
  assumes "\<not> isInRelease voice"
  shows "envelope_apply voice buf c sf =
    (voice\<lparr>volumeEnvelope := fst (stage_switch (c / 10) sf (volumeEnvelope voice) buf)\<rparr>,
     map Num (snd (stage_switch (c / 10) sf (volumeEnvelope voice) buf)))"
  using assms by (simp add: envelope_apply_def Let_def case_prod_beta)

subsection \<open>A block is processed sample by sample\<close>

text \<open>
  The stage loops on a buffer with one more sample in front: the loops touch the buffer only
  from \<open>filledBuffer\<close> on, so the sample in front stays and the indices shift by one.
\<close>

lemma delay_loop_shift:
  "delay_loop env (x # buf) (Suc filled) =
    (case delay_loop env buf filled of (r, env', buf', f') \<Rightarrow> (r, env', x # buf', Suc f'))"
proof (induction env buf filled rule: delay_loop.induct)
  case (1 env buf filled)
  show ?case
    using "1.IH"
    by (simp add: delay_loop.simps[of env "x # buf" "Suc filled"] delay_loop.simps[of env buf filled])
qed

lemma attack_loop_shift:
  "attack_loop off env (x # buf) (Suc filled) =
    (case attack_loop off env buf filled of (r, env', buf', f') \<Rightarrow> (r, env', x # buf', Suc f'))"
proof (induction off env buf filled rule: attack_loop.induct)
  case (1 off env buf filled)
  show ?case
    using "1.IH"
    by (simp add: attack_loop.simps[of off env "x # buf" "Suc filled"]
        attack_loop.simps[of off env buf filled])
qed

lemma interpolated_step_shift:
  "interpolated_step tg sf env (x # buf) (Suc filled) =
    (case interpolated_step tg sf env buf filled of (env', buf') \<Rightarrow> (env', x # buf'))"
  by (simp add: interpolated_step_eq)

lemma hold_loop_shift:
  "hold_loop off sf env (x # buf) (Suc filled) =
    (case hold_loop off sf env buf filled of (r, env', buf', f') \<Rightarrow> (r, env', x # buf', Suc f'))"
proof (induction off sf env buf filled rule: hold_loop.induct)
  case (1 off sf env buf filled)
  show ?case
    using "1.IH"
    by (simp add: hold_loop.simps[of off sf env "x # buf" "Suc filled"]
        hold_loop.simps[of off sf env buf filled] interpolated_step_eq)
qed

lemma decay_loop_shift:
  "decay_loop off sf dd env (x # buf) (Suc filled) =
    (case decay_loop off sf dd env buf filled of (r, env', buf', f') \<Rightarrow> (r, env', x # buf', Suc f'))"
proof (induction off sf dd env buf filled rule: decay_loop.induct)
  case (1 off sf dd env buf filled)
  show ?case
    using "1.IH"
    by (simp add: decay_loop.simps[of off sf dd env "x # buf" "Suc filled"]
        decay_loop.simps[of off sf dd env buf filled] interpolated_step_eq)
qed

lemma sustain_loop_shift:
  "sustain_loop off sf env (x # buf) (Suc filled) =
    (case sustain_loop off sf env buf filled of (env', buf') \<Rightarrow> (env', x # buf'))"
proof (induction off sf env buf filled rule: sustain_loop.induct)
  case (1 off sf env buf filled)
  show ?case
    using "1.IH"
    by (simp add: sustain_loop.simps[of off sf env "x # buf" "Suc filled"]
        sustain_loop.simps[of off sf env buf filled] interpolated_step_eq)
qed


lemma sustain_case_shift:
  "sustain_case off sf env (x # buf) (Suc filled) =
    (case sustain_case off sf env buf filled of (env', buf') \<Rightarrow> (env', x # buf'))"
  by (simp add: sustain_case_def sustain_loop_shift)

lemma decay_case_shift:
  "decay_case off sf env (x # buf) (Suc filled) =
    (case decay_case off sf env buf filled of (env', buf') \<Rightarrow> (env', x # buf'))"
  by (simp add: decay_case_def decay_loop_shift sustain_case_shift split: prod.splits)

lemma hold_case_shift:
  "hold_case off sf env (x # buf) (Suc filled) =
    (case hold_case off sf env buf filled of (env', buf') \<Rightarrow> (env', x # buf'))"
  by (simp add: hold_case_def hold_loop_shift decay_case_shift split: prod.splits)

lemma attack_case_shift:
  "attack_case off sf env (x # buf) (Suc filled) =
    (case attack_case off sf env buf filled of (env', buf') \<Rightarrow> (env', x # buf'))"
  by (simp add: attack_case_def attack_loop_shift hold_case_shift split: prod.splits)

lemma delay_case_shift:
  "delay_case off sf env (x # buf) (Suc filled) =
    (case delay_case off sf env buf filled of (env', buf') \<Rightarrow> (env', x # buf'))"
  by (simp add: delay_case_def delay_loop_shift attack_case_shift split: prod.splits)

lemma sustain_case_split:
  assumes "state env = 4" "xs \<noteq> []"
  shows "sustain_case off sf env (x # xs) 0 =
    (case sustain_case off sf env [x] 0 of
       (env1, b1) \<Rightarrow> (case stage_switch off sf env1 xs of (env2, b2) \<Rightarrow> (env2, b1 @ b2)))"
  using assms
  by (simp add: sustain_case_def sustain_loop.simps[of off sf env "x # xs" 0]
      sustain_loop.simps[of off sf env "[x]" 0] interpolated_step_eq sustain_loop_shift
      stage_switch_def split: prod.splits)

lemma decay_case_split:
  assumes "state env = 3" "xs \<noteq> []"
  shows "decay_case off sf env (x # xs) 0 =
    (case decay_case off sf env [x] 0 of
       (env1, b1) \<Rightarrow> (case stage_switch off sf env1 xs of (env2, b2) \<Rightarrow> (env2, b1 @ b2)))"
proof (cases "currentSampleTime env < decayEnd env")
  case True
  then show ?thesis
    using assms
    by (simp add: decay_case_def decay_loop.simps[of off sf _ env "x # xs" 0]
        decay_loop.simps[of off sf _ env "[x]" 0] interpolated_step_eq decay_loop_shift
        sustain_case_shift stage_switch_def split: prod.splits)
next
  case False
  have ft: "decay_case off sf env buf 0 = sustain_case off sf (env\<lparr>currentSampleTime := currentSampleTime env + 1, state := 4\<rparr>) buf 0" for buf
    using False assms(1)
    by (simp add: decay_case_def decay_loop.simps[of off sf _ env buf 0] eval_nat_numeral)
  show ?thesis
    unfolding ft using sustain_case_split[of "env\<lparr>currentSampleTime := currentSampleTime env + 1, state := 4\<rparr>" xs off sf x] assms(2) by simp
qed


lemma hold_case_split:
  assumes "state env = 2" "xs \<noteq> []"
  shows "hold_case off sf env (x # xs) 0 =
    (case hold_case off sf env [x] 0 of
       (env1, b1) \<Rightarrow> (case stage_switch off sf env1 xs of (env2, b2) \<Rightarrow> (env2, b1 @ b2)))"
proof (cases "currentSampleTime env < holdEnd env")
  case True
  then show ?thesis
    using assms
    by (simp add: hold_case_def hold_loop.simps[of off sf env "x # xs" 0]
        hold_loop.simps[of off sf env "[x]" 0] interpolated_step_eq hold_loop_shift
        decay_case_shift stage_switch_def split: prod.splits)
next
  case False
  have ft: "hold_case off sf env buf 0 = decay_case off sf (env\<lparr>state := 3\<rparr>) buf 0" for buf
    using False assms(1)
    by (simp add: hold_case_def hold_loop.simps[of off sf env buf 0] eval_nat_numeral)
  show ?thesis
    unfolding ft using decay_case_split[of "env\<lparr>state := 3\<rparr>" xs off sf x] assms(2) by simp
qed

lemma attack_case_split:
  assumes "state env = 1" "xs \<noteq> []"
  shows "attack_case off sf env (x # xs) 0 =
    (case attack_case off sf env [x] 0 of
       (env1, b1) \<Rightarrow> (case stage_switch off sf env1 xs of (env2, b2) \<Rightarrow> (env2, b1 @ b2)))"
proof (cases "currentSampleTime env < attackEnd env")
  case True
  then show ?thesis
    using assms
    by (simp add: attack_case_def attack_loop.simps[of off env "x # xs" 0]
        attack_loop.simps[of off env "[x]" 0] attack_loop_shift
        hold_case_shift stage_switch_def split: prod.splits)
next
  case False
  have ft: "attack_case off sf env buf 0 = hold_case off sf (env\<lparr>state := 2\<rparr>) buf 0" for buf
    using False assms(1)
    by (simp add: attack_case_def attack_loop.simps[of off env buf 0] eval_nat_numeral)
  show ?thesis
    unfolding ft using hold_case_split[of "env\<lparr>state := 2\<rparr>" xs off sf x] assms(2) by simp
qed

lemma delay_case_split:
  assumes "state env = 0" "xs \<noteq> []"
  shows "delay_case off sf env (x # xs) 0 =
    (case delay_case off sf env [x] 0 of
       (env1, b1) \<Rightarrow> (case stage_switch off sf env1 xs of (env2, b2) \<Rightarrow> (env2, b1 @ b2)))"
proof (cases "currentSampleTime env < delayEnd env")
  case True
  then show ?thesis
    using assms
    by (simp add: delay_case_def delay_loop.simps[of env "x # xs" 0]
        delay_loop.simps[of env "[x]" 0] delay_loop_shift
        attack_case_shift stage_switch_def split: prod.splits)
next
  case False
  have ft: "delay_case off sf env buf 0 = attack_case off sf (env\<lparr>state := 1\<rparr>) buf 0" for buf
    using False assms(1)
    by (simp add: delay_case_def delay_loop.simps[of env buf 0] eval_nat_numeral)
  show ?thesis
    unfolding ft using attack_case_split[of "env\<lparr>state := 1\<rparr>" xs off sf x] assms(2) by simp
qed

lemma stage_switch_split:
  assumes "xs \<noteq> []"
  shows "stage_switch off sf env (x # xs) =
    (case stage_switch off sf env [x] of
       (env1, b1) \<Rightarrow> (case stage_switch off sf env1 xs of (env2, b2) \<Rightarrow> (env2, b1 @ b2)))"
proof -
  consider "state env = 0" | "state env = 1" | "state env = 2" | "state env = 3" | "state env = 4"
    | "4 < state env"
    by arith
  then show ?thesis
  proof cases
    case 1
    then show ?thesis
      using delay_case_split[OF 1 assms, of off sf x] by (simp add: stage_switch_def[of off sf env])
  next
    case 2
    then show ?thesis
      using attack_case_split[OF 2 assms, of off sf x] by (simp add: stage_switch_def[of off sf env])
  next
    case 3
    then show ?thesis
      using hold_case_split[OF 3 assms, of off sf x] by (simp add: stage_switch_def[of off sf env])
  next
    case 4
    then show ?thesis
      using decay_case_split[OF 4 assms, of off sf x] by (simp add: stage_switch_def[of off sf env])
  next
    case 5
    then show ?thesis
      using sustain_case_split[OF 5 assms, of off sf x] by (simp add: stage_switch_def[of off sf env])
  next
    case 6
    then show ?thesis
      by (simp add: stage_switch_def)
  qed
qed

lemma envelope_apply_split:
  assumes "\<not> isInRelease voice" "xs \<noteq> []"
  shows "envelope_apply voice (x # xs) c sf =
    (case envelope_apply voice [x] c sf of
       (voice1, b1) \<Rightarrow> (case envelope_apply voice1 xs c sf of (voice2, b2) \<Rightarrow> (voice2, b1 @ b2)))"
  using assms
  by (simp add: envelope_apply_stage stage_switch_split[OF assms(2), of "c / 10" sf _ x]
      split: prod.splits)


text \<open>One sample: the stage that processes it is the state after the call.\<close>

lemma sustain_case_single:
  "sustain_case off sf env [x] 0 =
    (env\<lparr>currentAttenuationDb :=
            currentAttenuationDb env + (sustainDb env + off - currentAttenuationDb env) * sf,
          currentSampleTime := currentSampleTime env + 1\<rparr>,
     [x * decibelAttenuationToGain
            (currentAttenuationDb env + (sustainDb env + off - currentAttenuationDb env) * sf)])"
  by (simp add: sustain_case_def sustain_loop.simps[of off sf env "[x]" 0] interpolated_step_eq)

lemma decay_case_single:
  "decay_case off sf env [x] 0 =
    (if currentSampleTime env < decayEnd env then
       (env\<lparr>currentAttenuationDb :=
               currentAttenuationDb env
               + ((1 - (decayEnd env - (currentSampleTime env + 1)) / decayDuration env)
                    * (sustainDb env - attenuation env) + attenuation env + off
                  - currentAttenuationDb env) * sf,
             currentSampleTime := currentSampleTime env + 2\<rparr>,
        [x * decibelAttenuationToGain
               (currentAttenuationDb env
                + ((1 - (decayEnd env - (currentSampleTime env + 1)) / decayDuration env)
                     * (sustainDb env - attenuation env) + attenuation env + off
                   - currentAttenuationDb env) * sf)])
     else sustain_case off sf
            (env\<lparr>currentSampleTime := currentSampleTime env + 1, state := state env + 1\<rparr>) [x] 0)"
  by (simp add: decay_case_def decay_loop.simps[of off sf _ env "[x]" 0] interpolated_step_eq)

lemma hold_case_single:
  "hold_case off sf env [x] 0 =
    (if currentSampleTime env < holdEnd env then
       (env\<lparr>currentAttenuationDb :=
               currentAttenuationDb env + (attenuation env + off - currentAttenuationDb env) * sf,
             currentSampleTime := currentSampleTime env + 1\<rparr>,
        [x * decibelAttenuationToGain
               (currentAttenuationDb env + (attenuation env + off - currentAttenuationDb env) * sf)])
     else decay_case off sf (env\<lparr>state := state env + 1\<rparr>) [x] 0)"
  by (simp add: hold_case_def hold_loop.simps[of off sf env "[x]" 0] interpolated_step_eq)

lemma attack_case_single:
  "attack_case off sf env [x] 0 =
    (if currentSampleTime env < attackEnd env then
       (env\<lparr>currentAttenuationDb := attenuation env,
             currentSampleTime := currentSampleTime env + 1\<rparr>,
        [x * ((1 - (attackEnd env - currentSampleTime env) / attackDuration env)
                * decibelAttenuationToGain (attenuation env + off))])
     else hold_case off sf (env\<lparr>state := state env + 1\<rparr>) [x] 0)"
  by (simp add: attack_case_def attack_loop.simps[of off env "[x]" 0])

lemma delay_case_single:
  "delay_case off sf env [x] 0 =
    (if currentSampleTime env < delayEnd env then
       (env\<lparr>currentAttenuationDb := DB_SILENCE,
             currentSampleTime := currentSampleTime env + 1\<rparr>, [0])
     else attack_case off sf (env\<lparr>state := state env + 1\<rparr>) [x] 0)"
  by (simp add: delay_case_def delay_loop.simps[of env "[x]" 0])

lemmas case_single =
  delay_case_single attack_case_single hold_case_single decay_case_single sustain_case_single

lemma stage_switch_single:
  "(let r = stage_switch off sf env [x];
        env' = fst r;
        out = snd r;
        t = currentSampleTime env;
        c = currentAttenuationDb env
    in (state env' = 0 \<longrightarrow> out = [0] \<and> currentSampleTime env' = t + 1)
     \<and> (state env' = 1 \<longrightarrow>
          out = [x * ((1 - (attackEnd env - t) / attackDuration env)
                        * decibelAttenuationToGain (attenuation env + off))]
          \<and> currentSampleTime env' = t + 1)
     \<and> (state env' = 2 \<longrightarrow>
          out = [x * decibelAttenuationToGain (c + (attenuation env + off - c) * sf)]
          \<and> currentSampleTime env' = t + 1)
     \<and> (state env' = 3 \<longrightarrow>
          out = [x * decibelAttenuationToGain
                       (c + ((1 - (decayEnd env - (t + 1)) / decayDuration env)
                               * (sustainDb env - attenuation env) + attenuation env + off - c) * sf)]
          \<and> currentSampleTime env' = t + 2)
     \<and> (state env' = 4 \<longrightarrow>
          out = [x * decibelAttenuationToGain (c + (sustainDb env + off - c) * sf)]
          \<and> currentSampleTime env' = t + (if state env = 4 then 1 else 2)))"
proof -
  consider "state env = 0" | "state env = 1" | "state env = 2" | "state env = 3" | "state env = 4"
    | "4 < state env"
    by arith
  then show ?thesis
  proof cases
    case 1
    then show ?thesis by (simp add: stage_switch_def Let_def case_single)
  next
    case 2
    then show ?thesis by (simp add: stage_switch_def Let_def case_single)
  next
    case 3
    then show ?thesis by (simp add: stage_switch_def Let_def case_single)
  next
    case 4
    then show ?thesis by (simp add: stage_switch_def Let_def case_single)
  next
    case 5
    then show ?thesis by (simp add: stage_switch_def Let_def case_single)
  next
    case 6
    then show ?thesis by (simp add: stage_switch_def Let_def)
  qed
qed

lemma envelope_apply_single:
  assumes "\<not> isInRelease voice"
  shows "envelope_apply voice [x] c sf =
    (voice\<lparr>volumeEnvelope := fst (stage_switch (c / 10) sf (volumeEnvelope voice) [x])\<rparr>,
     map Num (snd (stage_switch (c / 10) sf (volumeEnvelope voice) [x])))"
  using assms by (rule envelope_apply_stage)

subsection \<open>The envelope clock\<close>

text \<open>
  C9. In the decay stage the envelope clock \<open>currentSampleTime\<close> is incremented twice for
  each sample written, once by the loop condition and once by the loop body, so a block of
  \<open>n\<close> samples that stays in decay advances the clock by \<open>2 n\<close>, and the decay stage is over
  within the block as soon as twice the block length (less one sample) covers what is left
  of the decay, that is after about half of \<open>decayDuration\<close> samples. A block that stays in
  the delay, attack or hold stage, and any block in the sustain stage, advances the clock by
  \<open>n\<close>. Sample by sample: the clock advances by 1 over a sample processed in the delay,
  attack or hold stage (the state after it tells the stage) or by a voice already in
  sustain, and by 2 over a sample processed in the decay stage.
\<close>

theorem envelope_clock_advance:
  assumes "\<not> isInRelease voice" and "audioBuffer \<noteq> []"
  shows
   "(let env = volumeEnvelope voice;
         n = length audioBuffer;
         env' = volumeEnvelope (fst (envelope_apply voice audioBuffer centibelOffset smoothingFactor))
     in (state env = 0 \<and> currentSampleTime env + real (n - 1) < delayEnd env \<longrightarrow>
           currentSampleTime env' = currentSampleTime env + real n \<and> state env' = 0)
      \<and> (state env = 1 \<and> currentSampleTime env + real (n - 1) < attackEnd env \<longrightarrow>
           currentSampleTime env' = currentSampleTime env + real n \<and> state env' = 1)
      \<and> (state env = 2 \<and> currentSampleTime env + real (n - 1) < holdEnd env \<longrightarrow>
           currentSampleTime env' = currentSampleTime env + real n \<and> state env' = 2)
      \<and> (state env = 3 \<and> currentSampleTime env + 2 * real (n - 1) < decayEnd env \<longrightarrow>
           currentSampleTime env' = currentSampleTime env + 2 * real n \<and> state env' = 3)
      \<and> (state env = 3 \<and> decayEnd env \<le> currentSampleTime env + 2 * real (n - 1) \<longrightarrow>
           state env' = 4)
      \<and> (state env = 4 \<longrightarrow>
           currentSampleTime env' = currentSampleTime env + real n \<and> state env' = 4)
      \<and> (let env1 = volumeEnvelope (fst (envelope_apply voice [x] centibelOffset smoothingFactor))
         in (state env1 \<le> 2 \<longrightarrow> currentSampleTime env1 = currentSampleTime env + 1)
          \<and> (state env1 = 3 \<longrightarrow> currentSampleTime env1 = currentSampleTime env + 2)
          \<and> (state env = 4 \<longrightarrow> currentSampleTime env1 = currentSampleTime env + 1)))"
proof -
  let ?env = "volumeEnvelope voice"
  let ?off = "centibelOffset / 10"
  note ap = envelope_apply_stage[OF assms(1), of audioBuffer centibelOffset smoothingFactor]
  have d: "state ?env = 0 \<and> currentSampleTime ?env + real (length audioBuffer - 1) < delayEnd ?env \<longrightarrow>
      currentSampleTime (volumeEnvelope (fst (envelope_apply voice audioBuffer centibelOffset smoothingFactor)))
        = currentSampleTime ?env + real (length audioBuffer)
      \<and> state (volumeEnvelope (fst (envelope_apply voice audioBuffer centibelOffset smoothingFactor))) = 0"
    using delay_case_within[OF assms(2), of ?env ?off smoothingFactor] by (auto simp: ap stage_switch_def)
  have a: "state ?env = 1 \<and> currentSampleTime ?env + real (length audioBuffer - 1) < attackEnd ?env \<longrightarrow>
      currentSampleTime (volumeEnvelope (fst (envelope_apply voice audioBuffer centibelOffset smoothingFactor)))
        = currentSampleTime ?env + real (length audioBuffer)
      \<and> state (volumeEnvelope (fst (envelope_apply voice audioBuffer centibelOffset smoothingFactor))) = 1"
    using attack_case_within[OF assms(2), of ?env ?off smoothingFactor] by (auto simp: ap stage_switch_def)
  have h: "state ?env = 2 \<and> currentSampleTime ?env + real (length audioBuffer - 1) < holdEnd ?env \<longrightarrow>
      currentSampleTime (volumeEnvelope (fst (envelope_apply voice audioBuffer centibelOffset smoothingFactor)))
        = currentSampleTime ?env + real (length audioBuffer)
      \<and> state (volumeEnvelope (fst (envelope_apply voice audioBuffer centibelOffset smoothingFactor))) = 2"
    using hold_case_within[OF assms(2), of ?env ?off smoothingFactor] by (auto simp: ap stage_switch_def)
  have dc: "state ?env = 3 \<and> currentSampleTime ?env + 2 * real (length audioBuffer - 1) < decayEnd ?env \<longrightarrow>
      currentSampleTime (volumeEnvelope (fst (envelope_apply voice audioBuffer centibelOffset smoothingFactor)))
        = currentSampleTime ?env + 2 * real (length audioBuffer)
      \<and> state (volumeEnvelope (fst (envelope_apply voice audioBuffer centibelOffset smoothingFactor))) = 3"
    using decay_case_within[OF assms(2), of ?env ?off smoothingFactor] by (auto simp: ap stage_switch_def)
  have de: "state ?env = 3 \<and> decayEnd ?env \<le> currentSampleTime ?env + 2 * real (length audioBuffer - 1) \<longrightarrow>
      state (volumeEnvelope (fst (envelope_apply voice audioBuffer centibelOffset smoothingFactor))) = 4"
    using decay_case_exit[OF assms(2), of ?env ?off smoothingFactor] by (auto simp: ap stage_switch_def)
  have s: "state ?env = 4 \<longrightarrow>
      currentSampleTime (volumeEnvelope (fst (envelope_apply voice audioBuffer centibelOffset smoothingFactor)))
        = currentSampleTime ?env + real (length audioBuffer)
      \<and> state (volumeEnvelope (fst (envelope_apply voice audioBuffer centibelOffset smoothingFactor))) = 4"
    using sustain_case_run[OF assms(2), of ?off smoothingFactor ?env] by (auto simp: ap stage_switch_def)
  let ?sw = "stage_switch ?off smoothingFactor ?env [x]"
  have e1: "volumeEnvelope (fst (envelope_apply voice [x] centibelOffset smoothingFactor)) = fst ?sw"
    by (simp add: envelope_apply_single[OF assms(1)])
  note single = stage_switch_single[of ?off smoothingFactor ?env x, unfolded Let_def]
  have c0: "state (fst ?sw) = 0 \<longrightarrow> currentSampleTime (fst ?sw) = currentSampleTime ?env + 1"
    and c1: "state (fst ?sw) = 1 \<longrightarrow> currentSampleTime (fst ?sw) = currentSampleTime ?env + 1"
    and c2: "state (fst ?sw) = 2 \<longrightarrow> currentSampleTime (fst ?sw) = currentSampleTime ?env + 1"
    and dec: "state (fst ?sw) = 3 \<longrightarrow> currentSampleTime (fst ?sw) = currentSampleTime ?env + 2"
    using single by simp_all
  have low: "state (fst ?sw) \<le> 2 \<longrightarrow> currentSampleTime (fst ?sw) = currentSampleTime ?env + 1"
  proof
    assume "state (fst ?sw) \<le> 2"
    then have "state (fst ?sw) = 0 \<or> state (fst ?sw) = 1 \<or> state (fst ?sw) = 2" by arith
    with c0 c1 c2 show "currentSampleTime (fst ?sw) = currentSampleTime ?env + 1" by auto
  qed
  have sus: "state ?env = 4 \<longrightarrow> currentSampleTime (fst ?sw) = currentSampleTime ?env + 1"
    by (simp add: stage_switch_def sustain_case_single)
  show ?thesis
    unfolding Let_def e1 using d a h dc de s low dec sus by simp
qed

theorem envelope_clock_advance_witness:
  "currentSampleTime (volumeEnvelope (fst (envelope_apply (example_voice_at 0 0) [1, 1, 1] 0 (1 / 1000)))) = 3
   \<and> currentSampleTime (volumeEnvelope (fst (envelope_apply (example_voice_at 1 44100) [1, 1, 1] 0 (1 / 1000)))) = 44103
   \<and> currentSampleTime (volumeEnvelope (fst (envelope_apply (example_voice_at 2 88200) [1, 1, 1] 0 (1 / 1000)))) = 88203
   \<and> currentSampleTime (volumeEnvelope (fst (envelope_apply (example_voice_at 3 132300) [1, 1, 1] 0 (1 / 1000)))) = 132306
   \<and> state (volumeEnvelope (fst (envelope_apply (example_voice_at 3 132300) [1, 1, 1] 0 (1 / 1000)))) = 3
   \<and> state (volumeEnvelope (fst (envelope_apply (example_voice_at 3 149937) [1, 1, 1] 0 (1 / 1000)))) = 4
   \<and> currentSampleTime (volumeEnvelope (fst (envelope_apply (example_voice_at 4 149941) [1, 1, 1] 0 (1 / 1000)))) = 149944
   \<and> currentSampleTime (volumeEnvelope (fst (envelope_apply (example_voice_at 3 132300) [1] 0 (1 / 1000)))) = 132302
   \<and> currentSampleTime (volumeEnvelope (fst (envelope_apply (example_voice_at 2 88200) [1] 0 (1 / 1000)))) = 88201"
  using envelope_clock_advance[of "example_voice_at 0 0" "[1, 1, 1]" 0 "1 / 1000" 1]
        envelope_clock_advance[of "example_voice_at 1 44100" "[1, 1, 1]" 0 "1 / 1000" 1]
        envelope_clock_advance[of "example_voice_at 2 88200" "[1, 1, 1]" 0 "1 / 1000" 1]
        envelope_clock_advance[of "example_voice_at 3 132300" "[1, 1, 1]" 0 "1 / 1000" 1]
        envelope_clock_advance[of "example_voice_at 3 149937" "[1, 1, 1]" 0 "1 / 1000" 1]
        envelope_clock_advance[of "example_voice_at 4 149941" "[1, 1, 1]" 0 "1 / 1000" 1]
  by (simp add: Let_def example_voice_at_simps envelope_apply_single stage_switch_def case_single)

subsection \<open>The finished flag\<close>

text \<open>
  C10. \<open>apply\<close> sets \<open>finished\<close> only on the release path: on a voice that is not in release
  the flag is left as it was, whatever the stage and the buffer; and on the release path with
  an empty buffer the flag is not set either, since the tested \<open>db\<close> is still its initial 0.
\<close>

theorem apply_finished_only_in_release:
  "(\<not> isInRelease voice \<longrightarrow>
      finished (fst (envelope_apply voice audioBuffer centibelOffset smoothingFactor)) = finished voice)
   \<and> (isInRelease voice \<longrightarrow>
      finished (fst (envelope_apply voice [] centibelOffset smoothingFactor)) = finished voice)"
  by (simp add: envelope_apply_def Let_def PERCEIVED_DB_SILENCE_def release_loop.simps
      split: prod.splits)

theorem apply_finished_only_in_release_witness:
  "\<not> isInRelease (example_voice_at 2 100000)
   \<and> finished (fst (envelope_apply (example_voice_at 2 100000) [1, 1] 0 (1 / 1000))) = False
   \<and> isInRelease ((example_voice_at 2 100000)\<lparr>isInRelease := True\<rparr>)
   \<and> finished (fst (envelope_apply ((example_voice_at 2 100000)\<lparr>isInRelease := True\<rparr>) []
         0 (1 / 1000))) = False"
  using apply_finished_only_in_release[of "example_voice_at 2 100000" "[1, 1]" 0 "1 / 1000"]
        apply_finished_only_in_release[of "(example_voice_at 2 100000)\<lparr>isInRelease := True\<rparr>"
          "[1, 1]" 0 "1 / 1000"]
  by (simp add: example_voice_at_simps)

subsection \<open>Release\<close>

lemma envelope_apply_release:
  assumes "isInRelease voice"
  shows "envelope_apply voice buf c sf =
    (let env = volumeEnvelope voice;
         r = release_loop (c / 10) (sf * 10) (DB_SILENCE - releaseStartDb env) env (map Num buf)
               (currentSampleTime env - releaseStartTimeSamples env) (Num 0) 0
     in (if snd (snd r) \<ge> Num PERCEIVED_DB_SILENCE
         then voice\<lparr>volumeEnvelope := fst r, finished := True\<rparr>
         else voice\<lparr>volumeEnvelope := fst r\<rparr>,
         fst (snd r)))"
  using assms by (simp add: envelope_apply_def Let_def case_prod_beta)

text \<open>
  With a release duration that is not zero and a release gain that is a real number, the
  release path stays in the real numbers and follows \<open>release_ramp\<close>, the straight line in
  dB from \<open>releaseStartDb\<close> at the start of release to 100 dB after \<open>releaseDuration\<close>
  samples: each sample is multiplied by the release gain, smoothed by ten times the
  smoothing factor towards the gain of the ramp at that sample, and the clock advances by
  one per sample.
\<close>

lemma release_follows_ramp:
  assumes "isInRelease voice" and "audioBuffer \<noteq> []"
      and "releaseDuration (volumeEnvelope voice) \<noteq> 0"
      and "currentReleaseGain (volumeEnvelope voice) = Num g"
  shows
   "(let env = volumeEnvelope voice;
         n = length audioBuffer;
         elapsed = currentSampleTime env - releaseStartTimeSamples env;
         r = envelope_apply voice audioBuffer centibelOffset smoothingFactor
     in release_ramp env 0 = releaseStartDb env
      \<and> release_ramp env (releaseDuration env) = 100
      \<and> length (snd r) = n
      \<and> (\<forall>i < n. snd r ! i = Num (audioBuffer ! i *
            smoothed g (smoothingFactor * 10)
              (map (\<lambda>m. decibelAttenuationToGain
                           (release_ramp env (elapsed + real m) + centibelOffset / 10))
                 [0..<Suc i])))
      \<and> currentSampleTime (volumeEnvelope (fst r)) = currentSampleTime env + real n)"
proof -
  let ?env = "volumeEnvelope voice"
  let ?el = "currentSampleTime ?env - releaseStartTimeSamples ?env"
  let ?r = "envelope_apply voice audioBuffer centibelOffset smoothingFactor"
  have ramp: "\<And>e. (e / releaseDuration ?env) * (DB_SILENCE - releaseStartDb ?env) + releaseStartDb ?env
                 = release_ramp ?env e"
    by (simp add: release_ramp_def DB_SILENCE_def)
  from release_loop_run[OF assms(3,4), of 0 audioBuffer "centibelOffset / 10" "smoothingFactor * 10"
        "DB_SILENCE - releaseStartDb ?env" ?el "Num 0"]
  obtain buf' where
    eq: "release_loop (centibelOffset / 10) (smoothingFactor * 10) (DB_SILENCE - releaseStartDb ?env)
           ?env (map Num audioBuffer) ?el (Num 0) 0 =
      (?env\<lparr>currentReleaseGain :=
                  Num (smoothed g (smoothingFactor * 10)
                    (map (\<lambda>m. decibelAttenuationToGain
                            (release_ramp ?env (?el + real m) + centibelOffset / 10))
                       [0..<length audioBuffer])),
                currentSampleTime := currentSampleTime ?env + real (length audioBuffer)\<rparr>,
       map Num buf', Num (release_ramp ?env (?el + real (length audioBuffer - 1))))"
    and len: "length buf' = length audioBuffer"
    and hi: "\<forall>k < length audioBuffer. buf' ! k = audioBuffer ! k *
           smoothed g (smoothingFactor * 10)
             (map (\<lambda>m. decibelAttenuationToGain
                     (release_ramp ?env (?el + real m) + centibelOffset / 10))
                [0..<Suc k])"
    using assms(2) unfolding ramp by (auto simp del: upt_Suc)
  have r0: "release_ramp ?env 0 = releaseStartDb ?env"
    by (simp add: release_ramp_def)
  have r1: "release_ramp ?env (releaseDuration ?env) = 100"
    using assms(3) by (simp add: release_ramp_def)
  have out: "snd ?r = map Num buf'"
    by (simp add: envelope_apply_release[OF assms(1)] Let_def eq del: upt_Suc)
  have samples: "\<forall>i < length audioBuffer. snd ?r ! i = Num (audioBuffer ! i *
            smoothed g (smoothingFactor * 10)
              (map (\<lambda>m. decibelAttenuationToGain
                           (release_ramp ?env (?el + real m) + centibelOffset / 10))
                 [0..<Suc i]))"
    using hi len unfolding out by (simp del: upt_Suc)
  have clock: "currentSampleTime (volumeEnvelope (fst ?r))
        = currentSampleTime ?env + real (length audioBuffer)"
    by (simp add: envelope_apply_release[OF assms(1)] Let_def eq del: upt_Suc)
  show ?thesis
    unfolding Let_def using r0 r1 samples clock len out by simp
qed

lemma release_follows_ramp_example:
  "release_ramp (volumeEnvelope (example_releasing 241894)) 44100 = 100
   \<and> snd (envelope_apply (example_releasing 241894) [1] 0 (1 / 1000)) ! 0
       = Num (1 / 100000 + (decibelAttenuationToGain (20 + 41894 / 44100 * 80) - 1 / 100000) * (1 / 100))
   \<and> currentSampleTime (volumeEnvelope (fst (envelope_apply (example_releasing 241894) [1] 0 (1 / 1000))))
       = 241895"
  using release_follows_ramp[of "example_releasing 241894" "[1]" "1 / 100000" 0 "1 / 1000"]
  by (simp add: Let_def example_releasing_simps release_ramp_def)

text \<open>
  A release gain that is \<open>NaN\<close> stays \<open>NaN\<close>, and every sample written from then on is \<open>NaN\<close>.
\<close>

lemma release_loop_NaN_gain:
  assumes "currentReleaseGain env = NaN" and "i \<le> length buf"
  shows "fst (release_loop off rsf dd env buf e db i)
           = env\<lparr>currentReleaseGain := NaN,
                  currentSampleTime := currentSampleTime env + real (length buf - i)\<rparr>
       \<and> fst (snd (release_loop off rsf dd env buf e db i))
           = take i buf @ replicate (length buf - i) NaN"
  using assms
proof (induction "length buf - i" arbitrary: env buf e db i)
  case 0
  then have "length buf \<le> i" "i = length buf" by simp_all
  then show ?case using "0.prems"(1) by (simp add: release_loop_done)
next
  case (Suc n)
  have lt: "i < length buf" using Suc.hyps(2) by simp
  let ?env1 = "env\<lparr>currentReleaseGain := NaN, currentSampleTime := currentSampleTime env + 1\<rparr>"
  let ?buf1 = "buf[i := NaN]"
  let ?db1 = "(Num e / Num (releaseDuration env)) * Num dd + Num (releaseStartDb env)"
  have step: "release_loop off rsf dd env buf e db i
      = release_loop off rsf dd ?env1 ?buf1 (e + 1) ?db1 (i + 1)"
    using Suc.prems(1) by (simp add: release_loop_step[OF lt])
  have n: "n = length ?buf1 - (i + 1)" using Suc.hyps(2) by simp
  have le: "i + 1 \<le> length ?buf1" using lt by simp
  have tk: "take (i + 1) ?buf1 @ replicate (length ?buf1 - (i + 1)) NaN
      = take i buf @ replicate (length buf - i) NaN"
  proof -
    have "take (i + 1) ?buf1 = take i buf @ [NaN]"
      using lt by (simp add: take_Suc_conv_app_nth)
    moreover have "length buf - i = Suc (length buf - (i + 1))" using lt by simp
    ultimately show ?thesis by simp
  qed
  have ct: "currentSampleTime env + 1 + real (length buf - (i + 1))
      = currentSampleTime env + real (length buf - i)"
    using lt by (simp add: of_nat_diff)
  have g1: "currentReleaseGain ?env1 = NaN" by simp
  from Suc.hyps(1)[OF n g1 le, of "e + 1" ?db1]
  show ?case
    unfolding step tk[symmetric] using ct by simp
qed

text \<open>
  The quotient by a release duration of zero, times a dB difference of zero, is \<open>NaN\<close>
  whatever the time elapsed: \<open>0 / 0\<close> is \<open>NaN\<close>, and an infinity times 0 is \<open>NaN\<close>.
\<close>

lemma zero_duration_db:
  "(Num e / Num 0) * Num 0 + Num start = NaN"
  by simp

lemma release_loop_zero_duration:
  assumes "releaseDuration env = 0" and "i < length buf"
  shows "release_loop off rsf 0 env buf e db i =
    (env\<lparr>currentReleaseGain := NaN,
         currentSampleTime := currentSampleTime env + real (length buf - i)\<rparr>,
     take i buf @ replicate (length buf - i) NaN, NaN)"
  using assms
proof (induction "length buf - i" arbitrary: env buf e db i)
  case 0
  then show ?case by simp
next
  case (Suc n)
  have lt: "i < length buf" using Suc.prems(2) .
  let ?env1 = "env\<lparr>currentReleaseGain := NaN, currentSampleTime := currentSampleTime env + 1\<rparr>"
  let ?buf1 = "buf[i := NaN]"
  have step: "release_loop off rsf 0 env buf e db i
      = release_loop off rsf 0 ?env1 ?buf1 (e + 1) NaN (i + 1)"
    using Suc.prems(1) by (simp add: release_loop_step[OF lt] decibelAttenuationToGain_number_def)
  have tk1: "take (i + 1) ?buf1 = take i buf @ [NaN]"
    using lt by (simp add: take_Suc_conv_app_nth)
  have r: "length buf - i = Suc (length buf - (i + 1))" using lt by simp
  show ?case
  proof (cases "i + 1 < length buf")
    case True
    have n: "n = length ?buf1 - (i + 1)" using Suc.hyps(2) by simp
    have rd: "releaseDuration ?env1 = 0" using Suc.prems(1) by simp
    have ct: "currentSampleTime env + 1 + real (length buf - (i + 1))
        = currentSampleTime env + real (length buf - i)"
      using lt by (simp add: of_nat_diff)
    have lt1: "i + 1 < length ?buf1" using True by simp
    from Suc.hyps(1)[OF n rd lt1, of "e + 1" NaN]
    show ?thesis
      unfolding step using tk1 r ct by simp
  next
    case False
    with lt have e: "length buf = i + 1" by simp
    then have "length ?buf1 \<le> i + 1" by simp
    then show ?thesis
      unfolding step using tk1 e by (simp add: release_loop_done)
  qed
qed

text \<open>
  C2. The claim holds of the ramp that the release path computes when \<open>releaseDuration\<close> is
  not zero, but the path divides by \<open>releaseDuration\<close> without a test, and \<open>recalculate\<close>
  sets it to zero for a release time of \<open>-32768\<close> timecents. On a voice in release with a
  zero \<open>releaseDuration\<close>: when the release starts at 100 dB of attenuation (a note released
  in its delay stage), where the claim has the ramp at 100 dB, above the 96 dB of perceived
  silence, from the first sample on, \<open>db\<close> is \<open>NaN\<close> at every sample, so the test
  \<open>db >= 96\<close> fails and \<open>finished\<close> is left as it was, every sample of the block and the
  release gain are \<open>NaN\<close>, and the voice leaves the call as it entered it, in release with
  a zero duration from 100 dB, so no later block finishes it either; and whatever the
  attenuation the release starts from, the first block of the release (no time elapsed yet)
  is all \<open>NaN\<close>. An empty block changes nothing.
\<close>

theorem release_zero_duration_never_finishes:
  assumes "isInRelease voice" and "releaseDuration (volumeEnvelope voice) = 0"
  shows
   "(let env = volumeEnvelope voice;
         n = length audioBuffer;
         r = envelope_apply voice audioBuffer centibelOffset smoothingFactor;
         env' = volumeEnvelope (fst r)
     in (releaseStartDb env = DB_SILENCE \<longrightarrow>
           PERCEIVED_DB_SILENCE \<le> releaseStartDb env
           \<and> finished (fst r) = finished voice
           \<and> snd r = replicate n NaN
           \<and> (0 < n \<longrightarrow> currentReleaseGain env' = NaN)
           \<and> isInRelease (fst r) \<and> releaseDuration env' = 0 \<and> releaseStartDb env' = DB_SILENCE)
      \<and> (currentSampleTime env = releaseStartTimeSamples env \<longrightarrow>
           snd r = replicate n NaN \<and> (0 < n \<longrightarrow> currentReleaseGain env' = NaN))
      \<and> currentSampleTime env' = currentSampleTime env + real n)"
proof -
  let ?env = "volumeEnvelope voice"
  let ?n = "length audioBuffer"
  let ?r = "envelope_apply voice audioBuffer centibelOffset smoothingFactor"
  let ?off = "centibelOffset / 10"
  let ?rsf = "smoothingFactor * 10"
  let ?dd = "DB_SILENCE - releaseStartDb ?env"
  let ?el = "currentSampleTime ?env - releaseStartTimeSamples ?env"
  let ?loop = "release_loop ?off ?rsf ?dd ?env (map Num audioBuffer) ?el (Num 0) 0"
  note ap = envelope_apply_release[OF assms(1), of audioBuffer centibelOffset smoothingFactor,
      unfolded Let_def]
  have empty: "envelope_apply voice [] centibelOffset smoothingFactor = (voice, [])"
    using envelope_apply_release[OF assms(1), of "[]" centibelOffset smoothingFactor]
    by (simp add: Let_def release_loop_done PERCEIVED_DB_SILENCE_def)
  have silent: "PERCEIVED_DB_SILENCE \<le> releaseStartDb ?env
           \<and> finished (fst ?r) = finished voice
           \<and> snd ?r = replicate ?n NaN
           \<and> (0 < ?n \<longrightarrow> currentReleaseGain (volumeEnvelope (fst ?r)) = NaN)
           \<and> isInRelease (fst ?r) \<and> releaseDuration (volumeEnvelope (fst ?r)) = 0
           \<and> releaseStartDb (volumeEnvelope (fst ?r)) = DB_SILENCE"
    if db: "releaseStartDb ?env = DB_SILENCE"
  proof (cases "audioBuffer = []")
    case True
    show ?thesis
      unfolding True using assms db
      by (simp add: empty PERCEIVED_DB_SILENCE_def DB_SILENCE_def)
  next
    case False
    then have lt: "0 < length (map Num audioBuffer)" by simp
    have dd: "?dd = 0" using db by simp
    have "?loop = (?env\<lparr>currentReleaseGain := NaN,
                          currentSampleTime := currentSampleTime ?env + real ?n\<rparr>,
                   replicate ?n NaN, NaN)"
      unfolding dd using release_loop_zero_duration[OF assms(2) lt, of ?off ?rsf ?el "Num 0"]
      by simp
    then show ?thesis
      using assms db False by (simp add: ap PERCEIVED_DB_SILENCE_def DB_SILENCE_def)
  qed
  have first: "snd ?r = replicate ?n NaN
        \<and> (0 < ?n \<longrightarrow> currentReleaseGain (volumeEnvelope (fst ?r)) = NaN)"
    if st: "currentSampleTime ?env = releaseStartTimeSamples ?env"
  proof (cases "audioBuffer = []")
    case True
    show ?thesis unfolding True by (simp add: empty)
  next
    case False
    then have lt: "0 < length (map Num audioBuffer)" by simp
    let ?env1 = "?env\<lparr>currentReleaseGain := NaN, currentSampleTime := currentSampleTime ?env + 1\<rparr>"
    let ?buf1 = "(map Num audioBuffer)[0 := NaN]"
    let ?db1 = "(Num ?el / Num (releaseDuration ?env)) * Num ?dd + Num (releaseStartDb ?env)"
    have step: "?loop = release_loop ?off ?rsf ?dd ?env1 ?buf1 (?el + 1) ?db1 (0 + 1)"
      using assms(2) st
      by (simp add: release_loop_step[OF lt] decibelAttenuationToGain_number_def)
    have le: "0 + 1 \<le> length ?buf1" using False by (cases audioBuffer) simp_all
    have tk: "take (0 + 1) ?buf1 @ replicate (length ?buf1 - (0 + 1)) NaN = replicate ?n NaN"
    proof -
      have "take (0 + 1) ?buf1 = [NaN]" using lt by (simp add: take_Suc_conv_app_nth)
      moreover have "?n = Suc (?n - 1)" using False by simp
      ultimately show ?thesis
        by (metis One_nat_def add.left_neutral append_Cons append_Nil length_list_update
            length_map replicate_Suc)
    qed
    have g1: "currentReleaseGain ?env1 = NaN" by simp
    from release_loop_NaN_gain[OF g1 le, of ?off ?rsf ?dd "?el + 1" ?db1]
    have "fst ?loop = ?env1\<lparr>currentReleaseGain := NaN,
                  currentSampleTime := currentSampleTime ?env1 + real (length ?buf1 - (0 + 1))\<rparr>"
      and "fst (snd ?loop) = replicate ?n NaN"
      unfolding step tk by simp_all
    then show ?thesis
      using False by (simp add: ap)
  qed
  have clock: "currentSampleTime (volumeEnvelope (fst ?r)) = currentSampleTime ?env + real ?n"
  proof -
    have "currentSampleTime (fst (release_loop off rsf dd env buf e db i))
        = currentSampleTime env + real (length buf - i)" for off rsf dd env buf e db i
    proof (induction "length buf - i" arbitrary: env buf e db i)
      case 0
      then show ?case by (simp add: release_loop_done)
    next
      case (Suc m)
      then have lt: "i < length buf" by simp
      let ?g = "currentReleaseGain env
               + (decibelAttenuationToGain_number
                    ((Num e / Num (releaseDuration env)) * Num dd + Num (releaseStartDb env) + Num off)
                  - currentReleaseGain env) * Num rsf"
      have m: "m = length (buf[i := buf ! i * ?g]) - (i + 1)" using Suc.hyps(2) by simp
      have "1 + real (length buf - (i + 1)) = real (length buf - i)"
        using lt by (simp add: of_nat_diff)
      with Suc.hyps(1)[OF m] show ?case
        by (simp add: release_loop_step[OF lt])
    qed
    then show ?thesis by (simp add: ap)
  qed
  show ?thesis
    unfolding Let_def using silent first clock by blast
qed

theorem release_zero_duration_never_finishes_witness:
  "isInRelease example_instant_release
   \<and> releaseDuration (volumeEnvelope example_instant_release) = 0
   \<and> releaseStartDb (volumeEnvelope example_instant_release) = 100
   \<and> snd (envelope_apply example_instant_release [1, 1, 1] 0 (1 / 1000)) = [NaN, NaN, NaN]
   \<and> finished (fst (envelope_apply example_instant_release [1, 1, 1] 0 (1 / 1000))) = False
   \<and> snd (envelope_apply (fst (envelope_apply example_instant_release [1, 1, 1] 0 (1 / 1000)))
          [1, 1, 1] 0 (1 / 1000)) = [NaN, NaN, NaN]
   \<and> finished (fst (envelope_apply (fst (envelope_apply example_instant_release [1, 1, 1] 0 (1 / 1000)))
          [1, 1, 1] 0 (1 / 1000))) = False"
proof -
  let ?r1 = "envelope_apply example_instant_release [1, 1, 1] 0 (1 / 1000)"
  have v: "isInRelease example_instant_release"
    "releaseDuration (volumeEnvelope example_instant_release) = 0"
    "releaseStartDb (volumeEnvelope example_instant_release) = 100"
    by (simp_all add: example_instant_release_simps)
  from release_zero_duration_never_finishes[OF v(1,2), of "[1, 1, 1]" 0 "1 / 1000"]
  have b1: "finished (fst ?r1) = False" "snd ?r1 = [NaN, NaN, NaN]"
    "isInRelease (fst ?r1)" "releaseDuration (volumeEnvelope (fst ?r1)) = 0"
    "releaseStartDb (volumeEnvelope (fst ?r1)) = DB_SILENCE"
    by (simp_all add: Let_def example_instant_release_simps DB_SILENCE_def eval_nat_numeral)
  from release_zero_duration_never_finishes[OF b1(3,4), of "[1, 1, 1]" 0 "1 / 1000"]
  have b2: "finished (fst (envelope_apply (fst ?r1) [1, 1, 1] 0 (1 / 1000))) = False"
    "snd (envelope_apply (fst ?r1) [1, 1, 1] 0 (1 / 1000)) = [NaN, NaN, NaN]"
    using b1(1,5) by (simp_all add: Let_def eval_nat_numeral)
  show ?thesis
    using v b1(1,2) b2 by simp
qed

subsection \<open>Recalculation\<close>

lemma recalculate_fields:
  "state (volumeEnvelope (recalculate voice)) = state (volumeEnvelope voice)"
  "releaseStartTimeSamples (volumeEnvelope (recalculate voice)) = releaseStartTimeSamples (volumeEnvelope voice)"
  "sampleRate (volumeEnvelope (recalculate voice)) = sampleRate (volumeEnvelope voice)"
  "attackEnd (volumeEnvelope (recalculate voice))
     = attackDuration (volumeEnvelope (recalculate voice)) + delayEnd (volumeEnvelope (recalculate voice))"
  "decayEnd (volumeEnvelope (recalculate voice))
     = decayDuration (volumeEnvelope (recalculate voice)) + holdEnd (volumeEnvelope (recalculate voice))"
  by (simp_all add: recalculate_def Let_def)

lemma recalculate_release:
  "isInRelease voice \<Longrightarrow>
   releaseStartDb (volumeEnvelope (recalculate voice))
     = releaseStartDb_of ((volumeEnvelope (recalculate voice))\<lparr>releaseStartDb := releaseStartDb (volumeEnvelope voice)\<rparr>)"
  by (simp add: recalculate_def Let_def)

text \<open>
  C3. When \<open>recalculate\<close> runs on a voice in release, \<open>releaseStartDb\<close> is set from the stage
  the envelope is in: 100 dB in delay; \<open>-20 log10 (attackProgress * peakGain)\<close> in attack,
  where \<open>attackProgress\<close> is the fraction \<open>attack_ramp\<close> of the attack elapsed at the start of
  release and \<open>peakGain\<close> the gain of \<open>attenuation\<close>; \<open>attenuation\<close> in hold; the point of
  \<open>decay_ramp\<close>, the line from \<open>attenuation\<close> to \<open>sustainDb\<close>, at the start of release in
  decay; and \<open>sustainDb\<close> in sustain. The two ramps are quotients by the attack and decay
  durations, which are taken to be nonzero, and the logarithm is that of the source where its
  argument is positive, that is for a release after the start of the attack.
\<close>

theorem recalculate_releaseStartDb:
  assumes "isInRelease voice"
  shows
   "(let env = volumeEnvelope (recalculate voice);
         s = state (volumeEnvelope voice);
         releaseStart = releaseStartTimeSamples (volumeEnvelope voice)
     in (s = 0 \<longrightarrow> releaseStartDb env = 100)
      \<and> (s = 1 \<and> attackDuration env \<noteq> 0 \<and> 0 < attack_ramp env releaseStart \<longrightarrow>
           releaseStartDb env
             = - 20 * log 10 (attack_ramp env releaseStart * decibelAttenuationToGain (attenuation env)))
      \<and> (s = 2 \<longrightarrow> releaseStartDb env = attenuation env)
      \<and> (s = 3 \<and> decayDuration env \<noteq> 0 \<longrightarrow> releaseStartDb env = decay_ramp env releaseStart)
      \<and> (s = 4 \<longrightarrow> releaseStartDb env = sustainDb env))"
proof -
  let ?env = "volumeEnvelope (recalculate voice)"
  let ?rs = "releaseStartTimeSamples (volumeEnvelope voice)"
  have a: "attackDuration ?env \<noteq> 0 \<Longrightarrow>
      1 - (attackEnd ?env - ?rs) / attackDuration ?env = attack_ramp ?env ?rs"
    by (simp add: recalculate_fields(4) attack_ramp_def field_simps)
  have d: "decayDuration ?env \<noteq> 0 \<Longrightarrow>
      (1 - (decayEnd ?env - ?rs) / decayDuration ?env) * (sustainDb ?env - attenuation ?env)
        + attenuation ?env = decay_ramp ?env ?rs"
    by (simp add: recalculate_fields(5) decay_ramp_def field_simps)
  show ?thesis
    using a d
    by (simp add: Let_def recalculate_release[OF assms] releaseStartDb_of_def recalculate_fields(1,2)
        DB_SILENCE_def)
qed

lemma log10_tenth: "log 10 (1 / 10) = - 1"
  by (simp add: log_divide)

theorem recalculate_releaseStartDb_witness:
  "releaseStartDb (volumeEnvelope (example_released 0 1000)) = 100
   \<and> releaseStartDb (volumeEnvelope (example_released 1 48510)) = 20
   \<and> releaseStartDb (volumeEnvelope (example_released 2 100000)) = 0
   \<and> releaseStartDb (volumeEnvelope (example_released 3 141120)) = 10
   \<and> releaseStartDb (volumeEnvelope (example_released 4 200000)) = 20"
  using recalculate_releaseStartDb[of "(example_voice_at 0 1000)\<lparr>isInRelease := True,
        volumeEnvelope := (volumeEnvelope (example_voice_at 0 1000))
           \<lparr>releaseStartTimeSamples := 1000, currentReleaseGain := Num (1 / 100000)\<rparr>\<rparr>"]
    recalculate_releaseStartDb[of "(example_voice_at 1 48510)\<lparr>isInRelease := True,
        volumeEnvelope := (volumeEnvelope (example_voice_at 1 48510))
           \<lparr>releaseStartTimeSamples := 48510, currentReleaseGain := Num (1 / 100000)\<rparr>\<rparr>"]
    recalculate_releaseStartDb[of "(example_voice_at 2 100000)\<lparr>isInRelease := True,
        volumeEnvelope := (volumeEnvelope (example_voice_at 2 100000))
           \<lparr>releaseStartTimeSamples := 100000, currentReleaseGain := Num (1 / 100000)\<rparr>\<rparr>"]
    recalculate_releaseStartDb[of "(example_voice_at 3 141120)\<lparr>isInRelease := True,
        volumeEnvelope := (volumeEnvelope (example_voice_at 3 141120))
           \<lparr>releaseStartTimeSamples := 141120, currentReleaseGain := Num (1 / 100000)\<rparr>\<rparr>"]
    recalculate_releaseStartDb[of "(example_voice_at 4 200000)\<lparr>isInRelease := True,
        volumeEnvelope := (volumeEnvelope (example_voice_at 4 200000))
           \<lparr>releaseStartTimeSamples := 200000, currentReleaseGain := Num (1 / 100000)\<rparr>\<rparr>"]
  unfolding example_released_pre[symmetric]
  by (simp add: Let_def example_voice_at_simps example_released_envelope attack_ramp_def
      decay_ramp_def decibelAttenuationToGain_def log10_tenth)

lemma timecentsToSeconds_nonneg: "0 \<le> timecentsToSeconds tc"
  by (simp add: timecentsToSeconds_def)

lemma timecentsToSamples_nonneg: "0 \<le> sampleRate env \<Longrightarrow> 0 \<le> timecentsToSamples env tc"
  by (simp add: timecentsToSamples_def timecentsToSeconds_nonneg)

lemma timecentsToSamples_recalculate:
  "timecentsToSamples (volumeEnvelope (recalculate voice)) tc = timecentsToSamples (volumeEnvelope voice) tc"
  by (simp add: timecentsToSamples_def recalculate_fields(3))

text \<open>
  C5, as the code has it. \<open>recalculate\<close> computes \<open>decayDuration\<close> as the samples of
  \<open>decayVolEnv + (60 - targetKey) * keyNumToVolEnvDecay\<close> timecents times the fraction
  \<open>(sustainDb - attenuation) / (100 - attenuation)\<close>, and the end of hold with the excursion
  \<open>(60 - targetKey) * keyNumToVolEnvHold\<close>; nothing is clamped (the fraction is a quotient
  by \<open>100 - attenuation\<close>, taken to be nonzero). With \<open>sustainDb\<close> above 100
  and \<open>attenuation\<close> below 100 the fraction exceeds 1 and \<open>decayDuration\<close> is not negative; the
  fraction is negative, and \<open>decayDuration\<close> at most 0, when \<open>attenuation\<close> is above 100 and
  \<open>sustainDb\<close> above \<open>attenuation\<close>.
\<close>

theorem recalculate_decayDuration:
  "(let env = volumeEnvelope (recalculate voice);
        gen = (\<lambda>g. real_of_int (modulatedGenerators voice g));
        key = real_of_int (targetKey voice);
        fraction = (sustainDb env - attenuation env) / (100 - attenuation env)
    in (attenuation env \<noteq> 100 \<longrightarrow>
          decayDuration env
            = timecentsToSamples env
                (gen generatorTypes_decayVolEnv + (60 - key) * gen generatorTypes_keyNumToVolEnvDecay)
              * fraction)
     \<and> holdEnd env
         = timecentsToSamples env
             (gen generatorTypes_holdVolEnv + (60 - key) * gen generatorTypes_keyNumToVolEnvHold)
           + attackEnd env
     \<and> (0 \<le> sampleRate env \<and> attenuation env < 100 \<and> 100 < sustainDb env \<longrightarrow>
           1 < fraction \<and> 0 \<le> decayDuration env)
     \<and> (0 \<le> sampleRate env \<and> 100 < attenuation env \<and> attenuation env < sustainDb env \<longrightarrow>
           fraction < 0 \<and> decayDuration env \<le> 0))"
proof -
  let ?env = "volumeEnvelope (recalculate voice)"
  let ?gen = "\<lambda>g. real_of_int (modulatedGenerators voice g)"
  let ?key = "real_of_int (targetKey voice)"
  let ?fraction = "(sustainDb ?env - attenuation ?env) / (100 - attenuation ?env)"
  let ?full = "timecentsToSamples ?env
             (?gen generatorTypes_decayVolEnv + (60 - ?key) * ?gen generatorTypes_keyNumToVolEnvDecay)"
  have dd: "decayDuration ?env = ?full * ?fraction"
    by (simp add: timecentsToSamples_recalculate) (simp add: recalculate_def Let_def)
  have he: "holdEnd ?env
         = timecentsToSamples ?env
             (?gen generatorTypes_holdVolEnv + (60 - ?key) * ?gen generatorTypes_keyNumToVolEnvHold)
           + attackEnd ?env"
    by (simp add: timecentsToSamples_recalculate) (simp add: recalculate_def Let_def)
  have over: "1 < ?fraction \<and> 0 \<le> decayDuration ?env"
    if "0 \<le> sampleRate ?env" "attenuation ?env < 100" "100 < sustainDb ?env"
  proof -
    have f: "1 < ?fraction" using that by (simp add: field_simps)
    have "0 \<le> ?full" using that(1) by (rule timecentsToSamples_nonneg)
    with f have "0 \<le> ?full * ?fraction" by (intro mult_nonneg_nonneg) auto
    with f dd show ?thesis by simp
  qed
  have neg: "?fraction < 0 \<and> decayDuration ?env \<le> 0"
    if "0 \<le> sampleRate ?env" "100 < attenuation ?env" "attenuation ?env < sustainDb ?env"
  proof -
    have f: "?fraction < 0" using that by (simp add: divide_pos_neg)
    have "0 \<le> ?full" using that(1) by (rule timecentsToSamples_nonneg)
    with f have "?full * ?fraction \<le> 0" by (intro mult_nonneg_nonpos) auto
    with f dd show ?thesis by simp
  qed
  show ?thesis
    unfolding Let_def using dd he over neg by blast
qed

theorem recalculate_decayDuration_witness:
  "decayDuration (volumeEnvelope (recalculate example_sustain_over_100)) = 44100 * (10 / 9)
   \<and> holdEnd (volumeEnvelope (recalculate example_sustain_over_100)) = 44100 + 88200
   \<and> 0 \<le> decayDuration (volumeEnvelope (recalculate example_sustain_over_100))"
  using recalculate_decayDuration[of example_sustain_over_100]
  by (simp add: Let_def example_sustain_over_100_envelope)

text \<open>
  The claim C5 as it is written, that \<open>sustainDb > 100\<close> makes the fraction and
  \<open>decayDuration\<close> negative, fails on a voice with 10 dB of attenuation and 100 dB of sustain
  attenuation: \<open>sustainDb\<close> is 110, the fraction is 10/9 and \<open>decayDuration\<close> is 49000 samples.
\<close>

theorem decayDuration_negative_counterexample:
  "100 < sustainDb (volumeEnvelope (recalculate example_sustain_over_100))
   \<and> \<not> (sustainDb (volumeEnvelope (recalculate example_sustain_over_100))
          - attenuation (volumeEnvelope (recalculate example_sustain_over_100)))
         / (100 - attenuation (volumeEnvelope (recalculate example_sustain_over_100))) < 0
   \<and> \<not> decayDuration (volumeEnvelope (recalculate example_sustain_over_100)) < 0"
  by (simp add: example_sustain_over_100_envelope)

subsection \<open>The gain of each stage\<close>

lemma attack_ramp_code:
  "attackDuration env \<noteq> 0 \<Longrightarrow> attackEnd env = attackDuration env + delayEnd env \<Longrightarrow>
   1 - (attackEnd env - t) / attackDuration env = attack_ramp env t"
  by (simp add: attack_ramp_def field_simps)

lemma decay_ramp_code:
  "decayDuration env \<noteq> 0 \<Longrightarrow> decayEnd env = decayDuration env + holdEnd env \<Longrightarrow>
   (1 - (decayEnd env - t) / decayDuration env) * (sustainDb env - attenuation env) + attenuation env
     = decay_ramp env t"
  by (simp add: decay_ramp_def field_simps)

text \<open>
  The same in closed form for a block of any length that stays in one stage: the gain of
  sample \<open>i\<close> in hold, decay and sustain is that of the attenuation smoothed over the targets
  of samples 0 to \<open>i\<close>.
\<close>

lemma envelope_stage_block_gains:
  assumes "\<not> isInRelease voice" and "audioBuffer \<noteq> []"
  shows
   "(let env = volumeEnvelope voice;
         n = length audioBuffer;
         t = currentSampleTime env;
         c = currentAttenuationDb env;
         decibelOffset = centibelOffset / 10;
         out = snd (envelope_apply voice audioBuffer centibelOffset smoothingFactor)
     in (attackDuration env \<noteq> 0 \<and> attackEnd env = attackDuration env + delayEnd env \<longrightarrow>
           attack_ramp env (delayEnd env) = 0 \<and> attack_ramp env (attackEnd env) = 1)
      \<and> (state env = 1 \<and> t + real (n - 1) < attackEnd env
           \<and> attackDuration env \<noteq> 0 \<and> attackEnd env = attackDuration env + delayEnd env \<longrightarrow>
           (\<forall>i < n. out ! i = Num (audioBuffer ! i *
              (attack_ramp env (t + real i)
                 * decibelAttenuationToGain (attenuation env + decibelOffset)))))
      \<and> (state env = 2 \<and> t + real (n - 1) < holdEnd env \<longrightarrow>
           (\<forall>i < n. out ! i = Num (audioBuffer ! i *
              decibelAttenuationToGain
                (smoothed c smoothingFactor (replicate (Suc i) (attenuation env + decibelOffset))))))
      \<and> (decayDuration env \<noteq> 0 \<and> decayEnd env = decayDuration env + holdEnd env \<longrightarrow>
           decay_ramp env (holdEnd env) = attenuation env
           \<and> decay_ramp env (decayEnd env) = sustainDb env)
      \<and> (state env = 3 \<and> t + 2 * real (n - 1) < decayEnd env
           \<and> decayDuration env \<noteq> 0 \<and> decayEnd env = decayDuration env + holdEnd env \<longrightarrow>
           (\<forall>i < n. out ! i = Num (audioBuffer ! i *
              decibelAttenuationToGain
                (smoothed c smoothingFactor
                   (map (\<lambda>m. decay_ramp env (t + 2 * real m + 1) + decibelOffset) [0..<Suc i])))))
      \<and> (state env = 4 \<longrightarrow>
           (\<forall>i < n. out ! i = Num (audioBuffer ! i *
              decibelAttenuationToGain
                (smoothed c smoothingFactor (replicate (Suc i) (sustainDb env + decibelOffset)))))))"
proof -
  let ?env = "volumeEnvelope voice"
  let ?n = "length audioBuffer"
  let ?t = "currentSampleTime ?env"
  let ?c = "currentAttenuationDb ?env"
  let ?off = "centibelOffset / 10"
  let ?out = "snd (envelope_apply voice audioBuffer centibelOffset smoothingFactor)"
  note ap = envelope_apply_stage[OF assms(1), of audioBuffer centibelOffset smoothingFactor]
  have ar: "attack_ramp ?env (delayEnd ?env) = 0 \<and> attack_ramp ?env (attackEnd ?env) = 1"
    if "attackDuration ?env \<noteq> 0" "attackEnd ?env = attackDuration ?env + delayEnd ?env"
    using that by (simp add: attack_ramp_def)
  have dr: "decay_ramp ?env (holdEnd ?env) = attenuation ?env
            \<and> decay_ramp ?env (decayEnd ?env) = sustainDb ?env"
    if "decayDuration ?env \<noteq> 0" "decayEnd ?env = decayDuration ?env + holdEnd ?env"
    using that by (simp add: decay_ramp_def)
  have a: "\<forall>i < ?n. ?out ! i = Num (audioBuffer ! i *
              (attack_ramp ?env (?t + real i) * decibelAttenuationToGain (attenuation ?env + ?off)))"
    if "state ?env = 1" "?t + real (?n - 1) < attackEnd ?env"
       "attackDuration ?env \<noteq> 0" "attackEnd ?env = attackDuration ?env + delayEnd ?env"
  proof -
    from attack_case_within[OF assms(2) that(2), of ?off smoothingFactor] obtain buf' where
      "attack_case ?off smoothingFactor ?env audioBuffer 0 =
        (?env\<lparr>currentAttenuationDb := attenuation ?env,
               currentSampleTime := ?t + real ?n\<rparr>, buf')"
      and "\<forall>k < ?n. buf' ! k = audioBuffer ! k *
           ((1 - (attackEnd ?env - (?t + real k)) / attackDuration ?env)
              * decibelAttenuationToGain (attenuation ?env + ?off))"
      and "length buf' = ?n"
      by blast
    then show ?thesis
      using that(1) by (simp add: ap stage_switch_def attack_ramp_code[OF that(3,4)])
  qed
  have h: "\<forall>i < ?n. ?out ! i = Num (audioBuffer ! i *
              decibelAttenuationToGain
                (smoothed ?c smoothingFactor (replicate (Suc i) (attenuation ?env + ?off))))"
    if "state ?env = 2" "?t + real (?n - 1) < holdEnd ?env"
  proof -
    from hold_case_within[OF assms(2) that(2), of ?off smoothingFactor] obtain buf' where
      "hold_case ?off smoothingFactor ?env audioBuffer 0 =
        (?env\<lparr>currentAttenuationDb :=
                 smoothed ?c smoothingFactor (replicate ?n (attenuation ?env + ?off)),
               currentSampleTime := ?t + real ?n\<rparr>, buf')"
      and "\<forall>k < ?n. buf' ! k = audioBuffer ! k *
           decibelAttenuationToGain
             (smoothed ?c smoothingFactor (replicate (Suc k) (attenuation ?env + ?off)))"
      and "length buf' = ?n"
      by blast
    then show ?thesis
      using that(1) by (simp add: ap stage_switch_def)
  qed
  have d: "\<forall>i < ?n. ?out ! i = Num (audioBuffer ! i *
              decibelAttenuationToGain
                (smoothed ?c smoothingFactor
                   (map (\<lambda>m. decay_ramp ?env (?t + 2 * real m + 1) + ?off) [0..<Suc i])))"
    if "state ?env = 3" "?t + 2 * real (?n - 1) < decayEnd ?env"
       "decayDuration ?env \<noteq> 0" "decayEnd ?env = decayDuration ?env + holdEnd ?env"
  proof -
    from decay_case_within[OF assms(2) that(2), of ?off smoothingFactor] obtain buf' where
      "decay_case ?off smoothingFactor ?env audioBuffer 0 =
        (?env\<lparr>currentAttenuationDb :=
              smoothed ?c smoothingFactor
                (map (\<lambda>m. (1 - (decayEnd ?env - (?t + 2 * real m + 1))
                                  / decayDuration ?env) * (sustainDb ?env - attenuation ?env)
                             + attenuation ?env + ?off)
                   [0..<?n]),
            currentSampleTime := ?t + 2 * real ?n\<rparr>, buf')"
      and "\<forall>k < ?n. buf' ! k = audioBuffer ! k *
           decibelAttenuationToGain
             (smoothed ?c smoothingFactor
                (map (\<lambda>m. (1 - (decayEnd ?env - (?t + 2 * real m + 1))
                                  / decayDuration ?env) * (sustainDb ?env - attenuation ?env)
                             + attenuation ?env + ?off)
                   [0..<Suc k]))"
      and "length buf' = ?n"
      by blast
    then show ?thesis
      using that(1) by (simp add: ap stage_switch_def decay_ramp_code[OF that(3,4)] del: upt_Suc)
  qed
  have s: "\<forall>i < ?n. ?out ! i = Num (audioBuffer ! i *
              decibelAttenuationToGain
                (smoothed ?c smoothingFactor (replicate (Suc i) (sustainDb ?env + ?off))))"
    if "state ?env = 4"
  proof -
    from sustain_case_run[OF assms(2), of ?off smoothingFactor ?env] obtain buf' where
      "sustain_case ?off smoothingFactor ?env audioBuffer 0 =
        (?env\<lparr>currentAttenuationDb :=
                 smoothed ?c smoothingFactor (replicate ?n (sustainDb ?env + ?off)),
               currentSampleTime := ?t + real ?n\<rparr>, buf')"
      and "\<forall>k < ?n. buf' ! k = audioBuffer ! k *
           decibelAttenuationToGain
             (smoothed ?c smoothingFactor (replicate (Suc k) (sustainDb ?env + ?off)))"
      and "length buf' = ?n"
      by blast
    then show ?thesis
      using that(1) by (simp add: ap stage_switch_def)
  qed
  show ?thesis
    unfolding Let_def using ar a h dr d s by blast
qed

text \<open>
  C4, as the code has it. With \<open>decibelOffset = centibelOffset / 10\<close>, on a voice that is not
  in release: a sample processed in the attack stage is multiplied by \<open>attack_ramp\<close>, which
  runs from 0 at the end of delay to 1 at the end of attack, times the gain of
  \<open>attenuation + decibelOffset\<close>; in the hold stage the smoothed attenuation moves towards
  \<open>attenuation + decibelOffset\<close>; in the decay stage towards \<open>decibelOffset\<close> above
  \<open>decay_ramp\<close>, the line in dB from \<open>attenuation\<close> at the end of hold to \<open>sustainDb\<close> at the
  end of decay, read at the envelope clock; in the sustain stage towards
  \<open>sustainDb + decibelOffset\<close>. The stage that processes the sample is the state of the
  envelope after it. A longer block is processed sample by sample: its result is that of its
  first sample followed by that of the rest on the voice the first sample leaves.
\<close>

theorem envelope_sample_gains:
  assumes "\<not> isInRelease voice"
  shows
   "(let env = volumeEnvelope voice;
         t = currentSampleTime env;
         c = currentAttenuationDb env;
         decibelOffset = centibelOffset / 10;
         r = envelope_apply voice [x] centibelOffset smoothingFactor;
         env' = volumeEnvelope (fst r);
         out = snd r
     in (attackDuration env \<noteq> 0 \<and> attackEnd env = attackDuration env + delayEnd env \<longrightarrow>
           attack_ramp env (delayEnd env) = 0 \<and> attack_ramp env (attackEnd env) = 1
           \<and> (state env' = 1 \<longrightarrow>
                 out = [Num (x * (attack_ramp env t
                               * decibelAttenuationToGain (attenuation env + decibelOffset)))]))
      \<and> (state env' = 2 \<longrightarrow>
            out = [Num (x * decibelAttenuationToGain
                         (smoothed c smoothingFactor [attenuation env + decibelOffset]))])
      \<and> (decayDuration env \<noteq> 0 \<and> decayEnd env = decayDuration env + holdEnd env \<longrightarrow>
           decay_ramp env (holdEnd env) = attenuation env
           \<and> decay_ramp env (decayEnd env) = sustainDb env
           \<and> (state env' = 3 \<longrightarrow>
                 out = [Num (x * decibelAttenuationToGain
                              (smoothed c smoothingFactor [decay_ramp env (t + 1) + decibelOffset]))]))
      \<and> (state env' = 4 \<longrightarrow>
            out = [Num (x * decibelAttenuationToGain
                         (smoothed c smoothingFactor [sustainDb env + decibelOffset]))])
      \<and> \<not> isInRelease (fst r)
      \<and> (xs \<noteq> [] \<longrightarrow>
            envelope_apply voice (x # xs) centibelOffset smoothingFactor
              = (case envelope_apply (fst r) xs centibelOffset smoothingFactor of
                   (voice2, b2) \<Rightarrow> (voice2, out @ b2))))"
proof -
  let ?env = "volumeEnvelope voice"
  let ?t = "currentSampleTime ?env"
  let ?c = "currentAttenuationDb ?env"
  let ?off = "centibelOffset / 10"
  let ?r = "envelope_apply voice [x] centibelOffset smoothingFactor"
  let ?sw = "stage_switch ?off smoothingFactor ?env [x]"
  have r: "volumeEnvelope (fst ?r) = fst ?sw" "snd ?r = map Num (snd ?sw)"
    "isInRelease (fst ?r) = isInRelease voice"
    by (simp_all add: envelope_apply_single[OF assms])
  note single = stage_switch_single[of ?off smoothingFactor ?env x, unfolded Let_def]
  have a1: "state (fst ?sw) = 1 \<longrightarrow>
      snd ?sw = [x * ((1 - (attackEnd ?env - ?t) / attackDuration ?env)
                        * decibelAttenuationToGain (attenuation ?env + ?off))]"
    using single by blast
  have d3: "state (fst ?sw) = 3 \<longrightarrow>
      snd ?sw = [x * decibelAttenuationToGain
                   (?c + ((1 - (decayEnd ?env - (?t + 1)) / decayDuration ?env)
                             * (sustainDb ?env - attenuation ?env) + attenuation ?env + ?off - ?c)
                         * smoothingFactor)]"
    using single by blast
  have ar: "attack_ramp ?env (delayEnd ?env) = 0 \<and> attack_ramp ?env (attackEnd ?env) = 1
      \<and> (state (fst ?sw) = 1 \<longrightarrow>
            snd ?sw = [x * (attack_ramp ?env ?t * decibelAttenuationToGain (attenuation ?env + ?off))])"
    if "attackDuration ?env \<noteq> 0" "attackEnd ?env = attackDuration ?env + delayEnd ?env"
  proof -
    have "attack_ramp ?env (delayEnd ?env) = 0" "attack_ramp ?env (attackEnd ?env) = 1"
      using that by (simp_all add: attack_ramp_def)
    then show ?thesis
      using a1[unfolded attack_ramp_code[OF that]] by simp
  qed
  have h: "state (fst ?sw) = 2 \<longrightarrow>
      snd ?sw = [x * decibelAttenuationToGain (smoothed ?c smoothingFactor [attenuation ?env + ?off])]"
    using single by simp
  have dr: "decay_ramp ?env (holdEnd ?env) = attenuation ?env
      \<and> decay_ramp ?env (decayEnd ?env) = sustainDb ?env
      \<and> (state (fst ?sw) = 3 \<longrightarrow>
            snd ?sw = [x * decibelAttenuationToGain
                             (smoothed ?c smoothingFactor [decay_ramp ?env (?t + 1) + ?off])])"
    if "decayDuration ?env \<noteq> 0" "decayEnd ?env = decayDuration ?env + holdEnd ?env"
  proof -
    have "decay_ramp ?env (holdEnd ?env) = attenuation ?env"
         "decay_ramp ?env (decayEnd ?env) = sustainDb ?env"
      using that by (simp_all add: decay_ramp_def)
    then show ?thesis
      using d3[unfolded decay_ramp_code[OF that]] by simp
  qed
  have s: "state (fst ?sw) = 4 \<longrightarrow>
      snd ?sw = [x * decibelAttenuationToGain (smoothed ?c smoothingFactor [sustainDb ?env + ?off])]"
    using single by simp
  have rel: "\<not> isInRelease (fst ?r)"
    using assms by (simp add: r)
  have blk: "envelope_apply voice (x # xs) centibelOffset smoothingFactor
              = (case envelope_apply (fst ?r) xs centibelOffset smoothingFactor of
                   (voice2, b2) \<Rightarrow> (voice2, snd ?r @ b2))"
    if "xs \<noteq> []"
    using envelope_apply_split[OF assms that, of x centibelOffset smoothingFactor]
    by (simp add: case_prod_beta)
  show ?thesis
    unfolding Let_def r(1,2) using ar h dr s rel blk r(2) by simp
qed

theorem envelope_sample_gains_witness:
  "snd (envelope_apply (example_voice_at 1 66150) [1] (- 200) (1 / 1000)) = [Num 5]
   \<and> snd (envelope_apply (example_voice_at 0 44100) [1] 0 (1 / 1000)) = [Num 0]
   \<and> state (volumeEnvelope (fst (envelope_apply (example_voice_at 0 44100) [1] 0 (1 / 1000)))) = 1
   \<and> snd (envelope_apply (example_voice_at 2 88200) [1] 0 (1 / 1000))
       = [Num (decibelAttenuationToGain (999 / 10))]
   \<and> snd (envelope_apply (example_voice_at 3 132300) [1] 0 (1 / 1000))
       = [Num (decibelAttenuationToGain (100 + (20 / 17640 - 100) * (1 / 1000)))]
   \<and> snd (envelope_apply (example_voice_at 4 150000) [1] 0 (1 / 1000))
       = [Num (decibelAttenuationToGain (100 + (20 - 100) * (1 / 1000)))]
   \<and> snd (envelope_apply (example_voice_at 1 66150) [1, 1] (- 200) (1 / 1000))
       = [Num 5, Num (22051 / 4410)]"
proof -
  show ?thesis
    using envelope_sample_gains[of "example_voice_at 1 66150" "- 200" 1 "1 / 1000" "[1]"]
          envelope_sample_gains[of "example_voice_at 0 44100" 0 1 "1 / 1000" "[]"]
          envelope_sample_gains[of "example_voice_at 2 88200" 0 1 "1 / 1000" "[]"]
          envelope_sample_gains[of "example_voice_at 3 132300" 0 1 "1 / 1000" "[]"]
          envelope_sample_gains[of "example_voice_at 4 150000" 0 1 "1 / 1000" "[]"]
    by (simp add: Let_def envelope_apply_single stage_switch_def case_single example_voice_at_simps attack_ramp_def
        decay_ramp_def decibelAttenuationToGain_def)
qed

text \<open>
  The claim C4 as it is written gives the attack the peak gain of \<open>attenuation\<close> alone. Half
  way through the attack of the example voice, whose \<open>attenuation\<close> is 0 dB and peak gain 1,
  a block rendered with \<open>centibelOffset = -200\<close> multiplies its sample by 5, where the claim
  gives 1/2.
\<close>

theorem attack_peak_gain_counterexample:
  "snd (envelope_apply (example_voice_at 1 66150) [1] (- 200) (1 / 1000)) ! 0 = Num 5
   \<and> 1 * (attack_ramp (volumeEnvelope (example_voice_at 1 66150)) 66150
           * decibelAttenuationToGain (attenuation (volumeEnvelope (example_voice_at 1 66150)))) = 1 / 2
   \<and> decibelAttenuationToGain (attenuation (volumeEnvelope (example_voice_at 1 66150))) = 1"
  by (simp add: envelope_apply_def Let_def stage_switch_def example_voice_at_simps attack_case_def
      attack_loop.simps attack_ramp_def decibelAttenuationToGain_def)

section \<open>Properties of the silent replay\<close>




lemma status_or_channel:
  fixes c :: nat
  assumes "c < 16"
  shows "(224 OR c) AND 240 = 224" "(224 OR c) AND 15 = c"
        "(176 OR c) AND 240 = 176" "(176 OR c) AND 15 = c"
proof -
  have "c = 0 \<or> c = 1 \<or> c = 2 \<or> c = 3 \<or> c = 4 \<or> c = 5 \<or> c = 6 \<or> c = 7 \<or> c = 8
      \<or> c = 9 \<or> c = 10 \<or> c = 11 \<or> c = 12 \<or> c = 13 \<or> c = 14 \<or> c = 15"
    using assms by arith
  then show "(224 OR c) AND 240 = 224" "(224 OR c) AND 15 = c"
        "(176 OR c) AND 240 = 176" "(176 OR c) AND 15 = c"
    by auto
qed


lemma getEvent_controllerChange: "c < 16 \<Longrightarrow> getEvent (176 OR c) = (176, int c)"
  by (simp add: getEvent_def status_or_channel Let_def)

lemma length_defaultControllerArray: "length defaultControllerArray = 127"
  by (simp add: defaultControllerArray_def)

lemma length_default_row: "length default_row = 127"
  by (simp add: default_row_def length_defaultControllerArray)

lemma defaultControllerArray_values:
  "defaultControllerArray ! 0 = 0" "defaultControllerArray ! 7 = 100"
  "defaultControllerArray ! 96 = 0" "defaultControllerArray ! 97 = 0"
  by (simp_all add: defaultControllerArray_def midiControllers_defs)

lemma restore_row_set:
  "a \<in> set (restore_row f row) \<longleftrightarrow> (\<exists>i v. i < length row \<and> row ! i = Some v \<and> a \<in> set (f i v))"
  by (auto simp: restore_row_def in_set_enumerate_eq split: option.splits)
     (force simp: in_set_enumerate_eq)

lemma collect_Inr:
  "\<forall>x \<in> set xs. \<exists>b. f x = Inr b \<Longrightarrow> \<exists>r. collect f xs = Inr r"
  by (induction xs) (auto split: sum.splits)

lemma collect_member:
  "collect f xs = Inr r \<Longrightarrow> m \<in> set r \<Longrightarrow> \<exists>x \<in> set xs. \<exists>b. f x = Inr b \<and> m \<in> set b"
  by (induction xs arbitrary: r) (auto split: sum.splits)

lemma restore_passthrough_channel_messages:
  assumes "restore_passthrough_channel st c = Inr batch"
      and "SendMIDIMessage [Some b, Some i, v] \<in> set batch"
  shows "b = messageTypes_pitchBend OR c
         \<or> (b = messageTypes_controllerChange OR c \<and> v \<noteq> js_index defaultControllerArray c)"
  using assms
  by (auto simp: restore_passthrough_channel_def restore_row_set split: option.splits if_splits)

lemma restore_passthrough_channel_defined:
  "js_get (savedControllers st) c = Some row \<Longrightarrow> \<exists>b. restore_passthrough_channel st c = Inr b"
  by (simp add: restore_passthrough_channel_def)

lemma controller_event_info:
  "c < 16 \<Longrightarrow> getEvent (messageStatusByte (controller_event t c n v)) = (176, int c)"
  "messageData (controller_event t c n v) = [n, v]"
  "ticks (controller_event t c n v) = t"
  by (simp_all add: controller_event_def messageTypes_defs getEvent_controllerChange)

lemma note_on_event_ticks: "ticks (note_on_event t c k v) = t"
  by (simp add: note_on_event_def)

lemma port_offset_example: "port_offset (example_sequencer p) 0 = 0"
  by (simp add: port_offset_def example_sequencer_def js_index_def)

lemma is_immediate_controller_iff:
  "is_immediate_controller n \<longleftrightarrow> n \<in> {0, 6, 32, 38, 97, 98, 99, 100, 101, 121}"
  by (auto simp: is_immediate_controller_def midiControllers_defs)

lemma replay_deferred_controller:
  assumes "c < 16" "\<not> is_immediate_controller n"
  shows "replay_event pe ti (controller_event t c n v) st
     = st\<lparr>savedControllers :=
            save_controller (savedControllers st) (c + port_offset (seq st) ti) (Some n) (Some v)\<rparr>"
  using assms
  by (simp add: replay_event_def controller_event_info Let_def messageTypes_defs js_index_def)

lemma replay_immediate_controller:
  assumes "c < 16" "is_immediate_controller n"
  shows "replay_event pe ti (controller_event t c n v) st
     = (if sendMIDIMessages (seq st)
        then st\<lparr>calls := calls st @ [SendMIDIMessage [Some (176 OR c), Some n, Some v]]\<rparr>
        else st\<lparr>calls := calls st @ [ControllerChange c n (Some v)]\<rparr>)"
  using assms
  by (simp add: replay_event_def controller_event_info Let_def messageTypes_defs js_index_def)

lemma save_controller_initial:
  assumes "c < 16" "n < 127"
  shows "save_controller (replicate 16 (Some default_row)) c (Some n) v
     = (replicate 16 (Some default_row))[c := Some (default_row[n := Some v])]"
  using assms by (simp add: save_controller_def js_get_def js_set_def length_default_row Let_def)

subsection \<open>The default controllers\<close>

lemma defaultControllerArray_126: "defaultControllerArray ! 126 = 0"
  by (simp add: defaultControllerArray_def midiControllers_defs)

lemma is_immediate_126_127: "\<not> is_immediate_controller 126" "\<not> is_immediate_controller 127"
  by (simp_all add: is_immediate_controller_iff)

text \<open>
  C6. The default controller vector holds 100 for main volume, 127 for expression, 64 for
  pan, release time and brightness, 40 for effects 1 depth and 0 elsewhere, but it has 127
  entries, for controllers 0 to 126: controller 127 has no default, and reads \<open>undefined\<close>.
  So a replayed controller 126 with value 0 is taken for unchanged and not issued to the
  synthesizer after the replay, while a replayed controller 127 with value 0 is issued.
\<close>

theorem defaultControllerArray_length:
  "length defaultControllerArray = 127
   \<and> js_index defaultControllerArray 127 = None
   \<and> filter (\<lambda>(i, v). v \<noteq> 0) (List.enumerate 0 defaultControllerArray)
       = [(7, 100), (10, 64), (11, 127), (72, 64), (74, 64), (91, 40)]
   \<and> ControllerChange 0 126 (Some 0) \<notin> set (restore_direct_channel
         (replay_event pe 0 (controller_event 0 0 126 0)
            (initial_replay_state (example_sequencer False) (example_sequencer False))) 0)
   \<and> ControllerChange 0 127 (Some 0) \<in> set (restore_direct_channel
         (replay_event pe 0 (controller_event 0 0 127 0)
            (initial_replay_state (example_sequencer False) (example_sequencer False))) 0)"
proof -
  let ?st0 = "initial_replay_state (example_sequencer False) (example_sequencer False)"
  have tab: "length defaultControllerArray = 127 \<and> js_index defaultControllerArray 127 = None
     \<and> filter (\<lambda>(i, v). v \<noteq> 0) (List.enumerate 0 defaultControllerArray)
       = [(7, 100), (10, 64), (11, 127), (72, 64), (74, 64), (91, 40)]"
    by code_simp
  have sc0: "savedControllers ?st0 = replicate 16 (Some default_row)"
    and off: "port_offset (seq ?st0) 0 = 0"
    by (simp_all add: initial_replay_state_def port_offset_def example_sequencer_def js_index_def)
  have s126: "savedControllers (replay_event pe 0 (controller_event 0 0 126 0) ?st0)
      = (replicate 16 (Some default_row))[0 := Some (default_row[126 := Some (Some 0)])]"
    by (simp add: replay_deferred_controller[OF _ is_immediate_126_127(1)] sc0 off
        save_controller_initial)
  have s127: "savedControllers (replay_event pe 0 (controller_event 0 0 127 0) ?st0)
      = (replicate 16 (Some default_row))[0 := Some (default_row @ [Some (Some 0)])]"
    by (simp add: replay_deferred_controller[OF _ is_immediate_126_127(2)] sc0 off
        save_controller_def js_get_def js_set_def length_default_row Let_def)
  have row: "default_row ! i = Some (Some (defaultControllerArray ! i))" if "i < 127" for i
    using that by (simp add: default_row_def length_defaultControllerArray)
  have n126: "ControllerChange 0 126 (Some 0) \<notin> set (restore_direct_channel
         (replay_event pe 0 (controller_event 0 0 126 0) ?st0) 0)"
    by (auto simp: restore_direct_channel_def s126 js_get_def restore_row_set length_default_row
        js_index_def length_defaultControllerArray defaultControllerArray_126
        split: option.splits if_splits)
  have y127: "ControllerChange 0 127 (Some 0) \<in> set (restore_direct_channel
         (replay_event pe 0 (controller_event 0 0 127 0) ?st0) 0)"
    by (simp add: restore_direct_channel_def s127 js_get_def restore_row_set length_default_row
        js_index_def length_defaultControllerArray nth_append split: option.splits)
  show ?thesis using tab n126 y127 by simp
qed

subsection \<open>Immediate and deferred controller changes\<close>

text \<open>
  C7. During the replay a data decrement (controller 97) is issued at once, in event order,
  but a data increment (controller 96) is not: the condition of the source names
  \<open>dataDecrement\<close> twice and \<open>dataIncrement\<close> never, so the increment makes no call and is only
  recorded in the saved controllers of its channel.
\<close>

theorem data_increment_is_deferred:
  "replay_event pe 0 (controller_event 0 0 midiControllers_dataIncrement 1)
       (initial_replay_state (example_sequencer False) (example_sequencer False))
     = (initial_replay_state (example_sequencer False) (example_sequencer False))
         \<lparr>savedControllers :=
            (replicate 16 (Some default_row))[0 := Some (default_row[96 := Some (Some 1)])]\<rparr>
   \<and> replay_event pe 0 (controller_event 0 0 midiControllers_dataDecrement 1)
       (initial_replay_state (example_sequencer False) (example_sequencer False))
     = (initial_replay_state (example_sequencer False) (example_sequencer False))
         \<lparr>calls := [ResetAllControllers, ControllerChange 0 97 (Some 1)]\<rparr>"
proof -
  have seq0: "seq (initial_replay_state (example_sequencer False) (example_sequencer False))
      = example_sequencer False"
    and sc0: "savedControllers (initial_replay_state (example_sequencer False) (example_sequencer False))
      = replicate 16 (Some default_row)"
    and calls0: "calls (initial_replay_state (example_sequencer False) (example_sequencer False))
      = [ResetAllControllers]"
    by (simp_all add: initial_replay_state_def example_sequencer_def)
  have inc: "\<not> is_immediate_controller midiControllers_dataIncrement"
    by (simp add: is_immediate_controller_iff midiControllers_defs)
  have dec: "is_immediate_controller midiControllers_dataDecrement"
    by (simp add: is_immediate_controller_iff midiControllers_defs)
  have direct: "\<not> sendMIDIMessages (example_sequencer False)"
    by (simp add: example_sequencer_def)
  show ?thesis
    using direct
    by (simp add: replay_deferred_controller[OF _ inc] replay_immediate_controller[OF _ dec]
        seq0 sc0 calls0 port_offset_example save_controller_initial)
       (simp add: midiControllers_defs save_controller_initial)
qed

subsection \<open>The pitch wheel\<close>
































subsection \<open>A seek in passthrough mode\<close>

lemma replay_loop_example:
  "replay_loop pe 0 (Some 5)
      (initial_replay_state s0 s0)
      [(0, controller_event 0 0 7 0), (0, note_on_event 10 0 60 100)]
   = Inr (True,
       (initial_replay_state s0 s0)
         \<lparr>seq := s0\<lparr>playedTime := playedTime s0 + oneTickToSeconds s0 * 10\<rparr>,
           savedControllers :=
             save_controller (replicate 16 (Some default_row)) (0 + port_offset s0 0) (Some 7) (Some 0)\<rparr>)"
proof -
  have ni: "\<not> is_immediate_controller 7"
    by (simp add: is_immediate_controller_iff)
  show ?thesis
    by (simp add: replay_deferred_controller[OF _ ni] controller_event_info note_on_event_ticks
        Let_def initial_replay_state_def)
qed

lemma playTo_example:
  "playTo (\<lambda>e i s. s) (\<lambda>s. s) 0 (Some 5) (example_sequencer p)
      [(0, controller_event 0 0 7 0), (0, note_on_event 10 0 60 100)]
   = (case restore
        \<lparr>seq = (example_sequencer p)\<lparr>oneTickToSeconds := 1 / 960, playedTime := 1 / 96\<rparr>,
         pitchBends = replicate 16 8192,
         savedControllers = (replicate 16 (Some default_row))[0 := Some (default_row[7 := Some (Some 0)])],
         calls = ResetAllControllers # (if p then [SendMIDIMessage [Some 255]] else [])\<rparr> of
        Inl e \<Rightarrow> Inl e
      | Inr batch \<Rightarrow>
          Inr (True, (example_sequencer p)\<lparr>oneTickToSeconds := 1 / 960, playedTime := 1 / 96\<rparr>,
               (ResetAllControllers # (if p then [SendMIDIMessage [Some 255]] else [])) @ batch))"
proof -
  show ?thesis
    unfolding playTo_def Let_def replay_loop_example
    by (simp add: port_offset_def js_index_def save_controller_initial initial_replay_state_def
          messageTypes_defs example_sequencer_def cong: sum.case_cong)
qed

text \<open>
  C1. A seek to tick 5 of a file that sets main volume (controller 7) of channel 0 to 0 at
  tick 0. Driving the synthesizer, the batch after the replay issues the controller change,
  as playing with muted notes would. In passthrough mode the message is never sent: the
  restore for the MIDI sink compares the saved value with \<open>defaultControllerArray\<close> at the
  channel number, not at the controller number, so on channel 0 a saved value of 0 counts as
  unchanged, whatever the controller, and the sink keeps the main volume it has after the
  reset.
\<close>

theorem passthrough_seek_drops_controller:
  "(case playTo (\<lambda>e i s. s) (\<lambda>s. s) 0 (Some 5) (example_sequencer True)
           [(0, controller_event 0 0 7 0), (0, note_on_event 10 0 60 100)] of
      Inl e \<Rightarrow> False
    | Inr (notFinished, s, cs) \<Rightarrow>
        notFinished \<and> SendMIDIMessage [Some 176, Some 7, Some 0] \<notin> set cs)
   \<and> (case playTo (\<lambda>e i s. s) (\<lambda>s. s) 0 (Some 5) (example_sequencer False)
           [(0, controller_event 0 0 7 0), (0, note_on_event 10 0 60 100)] of
      Inl e \<Rightarrow> False
    | Inr (notFinished, s, cs) \<Rightarrow>
        notFinished \<and> ControllerChange 0 7 (Some 0) \<in> set cs)"
proof -
  define saved where
    "saved = (replicate 16 (Some default_row))[0 := Some (default_row[7 := Some (Some (0::nat))])]"
  have rows: "\<And>c. c < 16 \<Longrightarrow> \<exists>r. js_get saved c = Some r"
    by (auto simp: saved_def js_get_def nth_list_update)
  \<comment> \<open>passthrough\<close>
  define stP where
    "stP = \<lparr>seq = (example_sequencer True)\<lparr>oneTickToSeconds := 1 / 960, playedTime := 1 / 96\<rparr>,
            pitchBends = replicate 16 8192, savedControllers = saved,
            calls = [ResetAllControllers, SendMIDIMessage [Some 255]]\<rparr>"
  have sendP: "sendMIDIMessages (seq stP)"
    by (simp add: stP_def example_sequencer_def)
  have "\<forall>c \<in> set [0..<16]. \<exists>b. restore_passthrough_channel stP c = Inr b"
  proof
    fix c :: nat
    assume "c \<in> set [0..<16]"
    then have "c < 16" by simp
    from rows[OF this] obtain r where "js_get saved c = Some r" ..
    then have "js_get (savedControllers stP) c = Some r" by (simp add: stP_def)
    then show "\<exists>b. restore_passthrough_channel stP c = Inr b"
      by (rule restore_passthrough_channel_defined)
  qed
  then obtain batch where batch: "collect (restore_passthrough_channel stP) [0..<16] = Inr batch"
    using collect_Inr by blast
  have not_sent: "SendMIDIMessage [Some 176, Some 7, Some 0] \<notin> set batch"
  proof
    assume "SendMIDIMessage [Some 176, Some 7, Some 0] \<in> set batch"
    from collect_member[OF batch this] obtain c b where
      c: "c < 16" and b: "restore_passthrough_channel stP c = Inr b"
      and m: "SendMIDIMessage [Some 176, Some 7, Some 0] \<in> set b"
      by auto
    from restore_passthrough_channel_messages[OF b m]
    have "176 = 224 OR c \<or> (176 = 176 OR c \<and> Some 0 \<noteq> js_index defaultControllerArray c)"
      by (simp add: messageTypes_defs)
    moreover have "176 \<noteq> 224 OR c"
    proof
      assume a: "176 = 224 OR c"
      have "(224 OR c) AND 240 = (176::nat) AND 240" unfolding a[symmetric] ..
      with status_or_channel(1)[OF c] show False by simp
    qed
    ultimately have e: "176 = 176 OR c" and d: "Some 0 \<noteq> js_index defaultControllerArray c"
      by auto
    have "(176 OR c) AND 15 = (176::nat) AND 15" unfolding e[symmetric] ..
    with status_or_channel(4)[OF c] have "c = 0" by simp
    with d show False
      by (simp add: js_index_def length_defaultControllerArray defaultControllerArray_values)
  qed
  have restP: "restore stP = Inr batch"
    using sendP batch by (simp add: restore_def)
  have partP: "(case playTo (\<lambda>e i s. s) (\<lambda>s. s) 0 (Some 5) (example_sequencer True)
           [(0, controller_event 0 0 7 0), (0, note_on_event 10 0 60 100)] of
      Inl e \<Rightarrow> False
    | Inr (notFinished, s, cs) \<Rightarrow>
        notFinished \<and> SendMIDIMessage [Some 176, Some 7, Some 0] \<notin> set cs)"
    unfolding playTo_example using restP not_sent by (simp add: stP_def saved_def)
  \<comment> \<open>direct\<close>
  define stD where
    "stD = \<lparr>seq = (example_sequencer False)\<lparr>oneTickToSeconds := 1 / 960, playedTime := 1 / 96\<rparr>,
            pitchBends = replicate 16 8192, savedControllers = saved,
            calls = [ResetAllControllers]\<rparr>"
  have restD: "restore stD = Inr (concat (map (restore_direct_channel stD) [0..<16]))"
    by (simp add: restore_def stD_def example_sequencer_def del: upt_Suc)
  have "ControllerChange 0 7 (Some 0) \<in> set (restore_direct_channel stD 0)"
    by (simp add: restore_direct_channel_def stD_def saved_def js_get_def restore_row_set
        length_default_row js_index_def length_defaultControllerArray defaultControllerArray_values)
  then have inD: "ControllerChange 0 7 (Some 0) \<in> set (concat (map (restore_direct_channel stD) [0..<16]))"
    by (auto simp del: upt_Suc intro!: bexI[of _ 0])
  have partD: "(case playTo (\<lambda>e i s. s) (\<lambda>s. s) 0 (Some 5) (example_sequencer False)
           [(0, controller_event 0 0 7 0), (0, note_on_event 10 0 60 100)] of
      Inl e \<Rightarrow> False
    | Inr (notFinished, s, cs) \<Rightarrow>
        notFinished \<and> ControllerChange 0 7 (Some 0) \<in> set cs)"
    unfolding playTo_example using restD inD by (simp add: stD_def saved_def del: upt_Suc)
  show ?thesis using partP partD by simp
qed

end
